theory Spec2Isabelle
  imports Complex_Main "HOL-Library.Log_Nat"
begin

section \<open>Exceptions\<close>

text \<open>
  The Python exceptions that the manager raises or that reach it. \<open>KeyboardInterrupt\<close>
  is the only one that is not a subclass of \<open>Exception\<close>, so an
  \<open>except Exception\<close> clause lets it pass.
\<close>

datatype exn =
    Exception string
  | AttributeError string
  | IndexError string
  | ValueError string
  | UnboundLocalError string
  | KeyboardInterrupt

fun str_exn :: "exn \<Rightarrow> string" where
  "str_exn (Exception msg) = msg"
| "str_exn (AttributeError msg) = msg"
| "str_exn (IndexError msg) = msg"
| "str_exn (ValueError msg) = msg"
| "str_exn (UnboundLocalError msg) = msg"
| "str_exn KeyboardInterrupt = []"

text \<open>
  The two messages of the vendor package (\<open>bitalino.ExceptionCode\<close>) that
  \<open>start_aquisition\<close> compares \<open>str(e)\<close> with. The package is not part of the
  repository; only the fact that the two strings differ is used.
\<close>

definition CONTACTING_DEVICE :: string where
  "CONTACTING_DEVICE = ''The computer lost communication with the device.''"

definition DEVICE_NOT_IDLE :: string where
  "DEVICE_NOT_IDLE = ''The device is not idle.''"

section \<open>Dictionaries\<close>

text \<open>
  A Python dict keeps its keys in insertion order, and the order decides the columns of
  the CSV file and the rows of a plot frame, so a dict is an association list with
  distinct keys. Assigning to a key that is present keeps its position.
\<close>

fun dict_set :: "('k \<times> 'v) list \<Rightarrow> 'k \<Rightarrow> 'v \<Rightarrow> ('k \<times> 'v) list" where
  "dict_set [] k v = [(k, v)]"
| "dict_set ((k', v') # d) k v =
     (if k' = k then (k, v) # d else (k', v') # dict_set d k v)"

definition dict_get :: "('k \<times> 'v) list \<Rightarrow> 'k \<Rightarrow> 'v \<Rightarrow> 'v" where
  "dict_get d k dflt = (case map_of d k of Some v \<Rightarrow> v | None \<Rightarrow> dflt)"

text \<open>\<open>d.keys()\<close>, in order.\<close>

definition dict_keys :: "('k \<times> 'v) list \<Rightarrow> 'k list" where
  "dict_keys d = map fst d"

section \<open>Device configuration\<close>

definition ACQ_CHANNELS :: "(string \<times> nat) list" where
  "ACQ_CHANNELS =
     [(''A1'', 0), (''A2'', 1), (''A3'', 2), (''A4'', 3), (''A5'', 4), (''A6'', 5)]"

definition SENSOR_TYPES :: "string list" where
  "SENSOR_TYPES = [''EDA'', ''ECG'', ''RAW'']"

text \<open>
  \<open>device_state\<close> is a \<open>DictWithAttributes\<close>: its keys are fixed (setting an
  attribute that is not a key raises), and reading or writing an attribute reads or
  writes the item. A record has exactly this behaviour.
\<close>

record device_state =
  MAC :: string
  selected_channels :: "nat list"
  sampling_rate :: int
  connected :: bool

definition DEFAULT_DEVICE_STATE :: device_state where
  "DEFAULT_DEVICE_STATE =
     \<lparr>MAC = [], selected_channels = [0], sampling_rate = 100, connected = False\<rparr>"

text \<open>
  \<open>DEFAULT_DEVICE_STATE\<close> itself is a plain \<open>dict\<close> literal. Attribute access on a
  built-in dict never consults its items: \<open>DEFAULT_DEVICE_STATE.sampling_rate\<close> and
  \<open>DEFAULT_DEVICE_STATE.MAC\<close> raise \<open>AttributeError\<close>, whatever the dict holds.
\<close>

definition quoted :: "string \<Rightarrow> string" where
  "quoted s = CHR 0x27 # s @ [CHR 0x27]"

definition plain_dict_getattr :: "device_state \<Rightarrow> string \<Rightarrow> (device_state \<Rightarrow> 'a) \<Rightarrow> exn + 'a" where
  "plain_dict_getattr d key field =
     Inl (AttributeError (quoted ''dict'' @ '' object has no attribute '' @ quoted key))"

text \<open>
  \<open>_select_channels\<close>: the selection is emptied first, then every accepted name
  appends its index; the first name that is not accepted raises, and what was appended
  so far stays in the state.
\<close>

fun select_channels_loop :: "string list \<Rightarrow> device_state \<Rightarrow> (exn + unit) \<times> device_state" where
  "select_channels_loop [] s = (Inr (), s)"
| "select_channels_loop (c # cs) s =
     (case map_of ACQ_CHANNELS c of
        Some k \<Rightarrow> select_channels_loop cs (s\<lparr>selected_channels := selected_channels s @ [k]\<rparr>)
      | None \<Rightarrow>
          (Inl (Exception (''[Invalid channel] : '' @ c @
             ''. Select from accepted channel values : A1, A2, A3, A4, A5, A6'')), s))"

definition select_channels :: "string list \<Rightarrow> device_state \<Rightarrow> (exn + unit) \<times> device_state" where
  "select_channels chs s = select_channels_loop chs (s\<lparr>selected_channels := []\<rparr>)"

text \<open>
  \<open>_select_sampling_rate\<close>: an accepted rate is stored. Otherwise the function prints
  two lines; the second one formats \<open>DEFAULT_DEVICE_STATE.sampling_rate\<close>, and so does
  the assignment after it.
\<close>

definition select_sampling_rate :: "int \<Rightarrow> device_state \<Rightarrow> (exn + unit) \<times> device_state" where
  "select_sampling_rate rate s =
     (if rate \<in> {1, 10, 100, 1000} then (Inr (), s\<lparr>sampling_rate := rate\<rparr>)
      else
        (case plain_dict_getattr DEFAULT_DEVICE_STATE ''sampling_rate'' sampling_rate of
           Inl e \<Rightarrow> (Inl e, s)
         | Inr (printed :: int) \<Rightarrow>
             (case plain_dict_getattr DEFAULT_DEVICE_STATE ''sampling_rate'' sampling_rate of
                Inl e \<Rightarrow> (Inl e, s)
              | Inr dflt \<Rightarrow> (Inr (), s\<lparr>sampling_rate := dflt\<rparr>))))"

text \<open>
  The names \<open>_select_channels\<close> accepts, and the index each one is mapped to.
\<close>

definition accepted :: "string \<Rightarrow> bool" where
  "accepted c = (c \<in> set (map fst ACQ_CHANNELS))"

definition channel_index :: "string \<Rightarrow> nat" where
  "channel_index c = dict_get ACQ_CHANNELS c 0"

section \<open>IEEE doubles\<close>

text \<open>
  Python floats and NumPy \<open>float64\<close> values are IEEE doubles. A finite double is
  identified with the rational number it stands for, and an arithmetic operation gives
  the exact result rounded to the nearest double, ties to even: \<open>double q\<close> is that
  rounding, to 53 significant bits. The exponent is not bounded: overflow and
  subnormal numbers are left out, and no computation on 64-bit sample counts comes
  near either.
\<close>

definition pow2 :: "int \<Rightarrow> rat" where
  "pow2 e = (if 0 \<le> e then 2 ^ nat e else 1 / 2 ^ nat (- e))"

text \<open>The \<open>e\<close> with \<open>2 ^ e \<le> \<bar>q\<bar> < 2 ^ (e + 1)\<close>, for \<open>q \<noteq> 0\<close>.\<close>

definition binade :: "rat \<Rightarrow> int" where
  "binade q =
     (let (a, b) = quotient_of \<bar>q\<bar>; k = bitlen a - bitlen b
      in if pow2 k \<le> \<bar>q\<bar> then k else k - 1)"

definition round_half_even :: "rat \<Rightarrow> int" where
  "round_half_even x =
     (let n = \<lfloor>x\<rfloor>; f = x - of_int n
      in if f < 1 / 2 then n else if 1 / 2 < f then n + 1 else if even n then n else n + 1)"

definition double :: "rat \<Rightarrow> rat" where
  "double q =
     (if q = 0 then 0
      else (let e = binade q - 52 in of_int (round_half_even (q / pow2 e)) * pow2 e))"

section \<open>Transfer functions\<close>

text \<open>
  Both functions receive a flattened column of raw ADC counts (a NumPy integer array)
  and work elementwise, in doubles: every literal, every conversion of a count and every
  operation is rounded, in the order in which the source computes.
\<close>

definition raw_to_eda_uS :: "int list \<Rightarrow> rat list" where
  "raw_to_eda_uS raw_data =
     (let VCC = double (33 / 10);
          eda_uS = map (\<lambda>x. double (double (of_int x) * VCC)) raw_data;
          n = (10 :: nat);
          eda_uS = map (\<lambda>x. double (x / double (double (132 / 1000) * 2 ^ n))) eda_uS
      in eda_uS)"

definition raw_to_ecg_mv :: "int list \<Rightarrow> rat list" where
  "raw_to_ecg_mv raw_data =
     (let VCC = double (33 / 10);
          G = 1100;
          n = (10 :: nat);
          ecg = map (\<lambda>x. double (double (of_int x) / 2 ^ n)) raw_data;
          ecg = map (\<lambda>x. double (x - 5 / 10)) ecg;
          ecg = map (\<lambda>x. double (x * double (VCC / G))) ecg;
          ecg_mv = map (\<lambda>x. double (x * 1000)) ecg
      in ecg_mv)"

section \<open>The manager and its surroundings\<close>

text \<open>
  An array of the session holds integer counts or doubles; either way an entry is the
  rational it stands for.
\<close>

type_synonym session = "(string \<times> rat list) list"

record manager =
  device_state :: device_state
  connection_failed_counter :: nat
  collected_data :: "(string \<times> session) list"

record params =
  runtime :: int
  channels :: "(string \<times> string) list"
  samplingRate :: int
  nSamples :: int
  show_live_plot :: bool
  macAddress :: "string option"
  save_to_file :: bool
  file_name_prefix :: string
  print_sample_log :: bool

definition default_params :: params where
  "default_params =
     \<lparr>runtime = 0, channels = [(''A1'', ''EDA'')], samplingRate = 100, nSamples = 100,
      show_live_plot = False, macAddress = None, save_to_file = False,
      file_name_prefix = ''BITALINO'', print_sample_log = False\<rparr>"

text \<open>
  A batch returned by the vendor's \<open>read\<close>: a two-dimensional integer array, one row
  per sample.
\<close>

record raw_batch =
  width :: nat
  samples :: "int list list"

record csv_file =
  header :: "string list"
  body :: "rat list list"

text \<open>
  Everything the manager does to the outside is recorded as an event, in order: the
  calls of the vendor SDK, what is done to the plotting process, and the file written.
  Printing is left out.
\<close>

datatype event =
    Dev_open string int
  | Dev_version
  | Dev_state
  | Dev_start int "nat list"
  | Dev_read int
  | Dev_stop
  | Dev_close
  | Plot_spawn int "string list"
  | Plot_write "rat list list"
  | Plot_sigint
  | Csv_write string int string csv_file

text \<open>
  The vendor SDK, the clock and the plotting process are the environment. For one
  invocation of \<open>start_aquisition\<close> the environment is a script of its answers:
  whether a call of the SDK raises (\<open>Some msg\<close>: it raises an \<open>Exception\<close> whose
  \<open>str\<close> is \<open>msg\<close>), what each \<open>read\<close> returns together with the clock reading
  taken at the end of that iteration, and whether the plotting process still runs at the
  end. A script with no further \<open>read\<close> leaves the loop polling.
\<close>

datatype read_result = Batch raw_batch | Read_raises exn

record sdk_connect =
  open_raises :: "string option"
  version_raises :: "string option"
  state_raises :: "string option"

record attempt =
  sdk :: sdk_connect
  start_raises :: "string option"
  t_start :: rat
  time_stamp :: string
  reads :: "(read_result \<times> rat) list"
  plot_running :: bool
  stop_raises :: "string option"
  close_raises :: "string option"

section \<open>Connecting\<close>

text \<open>
  The body of the \<open>try\<close> in \<open>connect\<close>, up to the first statement that raises, with
  the events of the SDK calls made.
\<close>

definition connect_try :: "sdk_connect \<Rightarrow> string option \<Rightarrow> int \<Rightarrow> bool \<Rightarrow> (exn + string) \<times> event list" where
  "connect_try k mac timeout print_state =
     (case (case mac of
              None \<Rightarrow> plain_dict_getattr DEFAULT_DEVICE_STATE ''MAC'' MAC
            | Some a \<Rightarrow> Inr a) of
        Inl e \<Rightarrow> (Inl e, [])
      | Inr a \<Rightarrow>
          (case open_raises k of
             Some msg \<Rightarrow> (Inl (Exception msg), [Dev_open a timeout])
           | None \<Rightarrow>
               (case version_raises k of
                  Some msg \<Rightarrow> (Inl (Exception msg), [Dev_open a timeout, Dev_version])
                | None \<Rightarrow>
                    if print_state then
                      (case state_raises k of
                         Some msg \<Rightarrow>
                           (Inl (Exception msg), [Dev_open a timeout, Dev_version, Dev_state])
                       | None \<Rightarrow> (Inr a, [Dev_open a timeout, Dev_version, Dev_state]))
                    else (Inr a, [Dev_open a timeout, Dev_version]))))"

definition connect :: "sdk_connect \<Rightarrow> string option \<Rightarrow> int \<Rightarrow> bool \<Rightarrow> manager \<Rightarrow> (exn + bool) \<times> manager \<times> event list" where
  "connect k mac timeout print_state m =
     (case connect_try k mac timeout print_state of
        (Inr a, evs) \<Rightarrow>
          (let m' = m\<lparr>connection_failed_counter := 0,
                      device_state := (device_state m)\<lparr>MAC := a, connected := True\<rparr>\<rparr>
           in (Inr (connected (device_state m')), m', evs))
      | (Inl e, evs) \<Rightarrow>
          (Inl (Exception (''[Connection Error] : '' @ str_exn e)),
           m\<lparr>connection_failed_counter := connection_failed_counter m + 1,
             device_state := (device_state m)\<lparr>connected := False\<rparr>\<rparr>,
           evs))"

definition disconnect :: "attempt \<Rightarrow> manager \<Rightarrow> (exn + unit) \<times> manager \<times> event list" where
  "disconnect a m =
     (case close_raises a of
        Some msg \<Rightarrow> (Inl (Exception msg), m, [Dev_close])
      | None \<Rightarrow>
          (Inr (), m\<lparr>device_state := (device_state m)\<lparr>connected := False\<rparr>\<rparr>, [Dev_close]))"

definition force_stop_aquisition :: "attempt \<Rightarrow> (exn + unit) \<times> event list" where
  "force_stop_aquisition a =
     (case stop_raises a of
        Some msg \<Rightarrow> (Inl (Exception msg), [Dev_stop])
      | None \<Rightarrow> (Inr (), [Dev_stop]))"

section \<open>One polling iteration\<close>

definition COLUMN_OFFSET :: nat where
  "COLUMN_OFFSET = 5"

text \<open>\<open>_read_data[:, j].flatten()\<close>: a column that the array does not have raises.\<close>

definition column :: "raw_batch \<Rightarrow> nat \<Rightarrow> exn + int list" where
  "column b j =
     (if j < width b then Inr (map (\<lambda>r. r ! j) (samples b))
      else Inl (IndexError ''index is out of bounds for axis 1''))"

text \<open>
  The conversion of one channel. The source has an \<open>if\<close> for EDA followed by a
  separate \<open>if\<close>/\<open>else\<close> for ECG: the value the first statement assigns is
  overwritten by one of the branches of the second.
\<close>

definition sensor_data :: "raw_batch \<Rightarrow> nat \<Rightarrow> string \<Rightarrow> exn + rat list" where
  "sensor_data b i sensor =
     (case (if sensor = ''EDA''
            then map_sum id (\<lambda>c. Some (raw_to_eda_uS c)) (column b (COLUMN_OFFSET + i))
            else Inr None) of
        Inl e \<Rightarrow> Inl e
      | Inr after_first_if \<Rightarrow>
          if sensor = ''ECG''
          then map_sum id raw_to_ecg_mv (column b (COLUMN_OFFSET + i))
          else map_sum id (map of_int) (column b (COLUMN_OFFSET + i)))"

definition store :: "session \<Rightarrow> string \<Rightarrow> rat list \<Rightarrow> session" where
  "store d sensor v =
     (if length (dict_get d sensor []) > 0
      then dict_set d sensor (dict_get d sensor [] @ v)
      else dict_set d sensor v)"

text \<open>
  The loop over \<open>enumerate(channels.items())\<close>, from index \<open>i\<close>. The session dict is
  updated in place, so what was stored before an exception stays stored.
\<close>

fun convert_store :: "raw_batch \<Rightarrow> nat \<Rightarrow> (string \<times> string) list \<Rightarrow> session \<Rightarrow> exn option \<times> session" where
  "convert_store b i [] d = (None, d)"
| "convert_store b i ((ch, sensor) # rest) d =
     (case sensor_data b i sensor of
        Inl e \<Rightarrow> (Some e, d)
      | Inr v \<Rightarrow> convert_store b (Suc i) rest (store d sensor v))"

text \<open>
  \<open>np.array(list(d.values()))\<close> is two-dimensional only when the arrays have one
  length; NumPy (1.24 and later) refuses a ragged list with a \<open>ValueError\<close>. An empty
  list gives a one-dimensional array, which \<open>[:, -k:]\<close> cannot index.
\<close>

fun aligned :: "'a list list \<Rightarrow> bool" where
  "aligned [] = True"
| "aligned (a # as) = list_all (\<lambda>b. length b = length a) as"

definition np_array :: "rat list list \<Rightarrow> exn + rat list list" where
  "np_array arrs =
     (if aligned arrs then Inr arrs
      else Inl (ValueError ''The requested array has an inhomogeneous shape''))"

text \<open>\<open>xs[start:]\<close> for a Python integer \<open>start\<close>.\<close>

definition slice_from :: "int \<Rightarrow> 'a list \<Rightarrow> 'a list" where
  "slice_from start xs =
     (if start < 0 then drop (length xs - nat (- start)) xs else drop (nat start) xs)"

definition plot_frame :: "int \<Rightarrow> session \<Rightarrow> exn + rat list list" where
  "plot_frame rate d =
     (let max_one_min_values = 60 * rate in
      case np_array (map snd d) of
        Inl e \<Rightarrow> Inl e
      | Inr arr \<Rightarrow>
          if arr = [] then Inl (IndexError ''too many indices for array'')
          else Inr (map (slice_from (- max_one_min_values)) arr))"

datatype loop_exit = Timed_out | Raised exn | Polling

text \<open>
  One pass through the body of \<open>while True\<close>. The first component is \<open>None\<close> when the
  loop goes on to the next iteration.
\<close>

definition iteration :: "params \<Rightarrow> (string \<times> string) list \<Rightarrow> int \<Rightarrow> rat \<Rightarrow> read_result \<times> rat \<Rightarrow> session \<Rightarrow> loop_exit option \<times> session \<times> event list" where
  "iteration p chans rate t0 r d =
     (case fst r of
        Read_raises e \<Rightarrow> (Some (Raised e), d, [Dev_read (nSamples p)])
      | Batch b \<Rightarrow>
          (case convert_store b 0 chans d of
             (Some e, d1) \<Rightarrow> (Some (Raised e), d1, [Dev_read (nSamples p)])
           | (None, d1) \<Rightarrow>
               (case (if print_sample_log p then np_array (map snd d1) else Inr []) of
                  Inl e \<Rightarrow> (Some (Raised e), d1, [Dev_read (nSamples p)])
                | Inr shape \<Rightarrow>
                    (case (if show_live_plot p
                           then map_sum id (\<lambda>tmp. [Plot_write tmp]) (plot_frame rate d1)
                           else Inr []) of
                       Inl e \<Rightarrow> (Some (Raised e), d1, [Dev_read (nSamples p)])
                     | Inr w \<Rightarrow>
                         (if runtime p > 0 \<and> snd r - t0 \<ge> of_int (runtime p)
                          then Some Timed_out else None,
                          d1, Dev_read (nSamples p) # w)))))"

fun poll :: "params \<Rightarrow> (string \<times> string) list \<Rightarrow> int \<Rightarrow> rat \<Rightarrow> (read_result \<times> rat) list \<Rightarrow> session \<Rightarrow> loop_exit \<times> session \<times> event list" where
  "poll p chans rate t0 [] d = (Polling, d, [])"
| "poll p chans rate t0 (r # rest) d =
     (case iteration p chans rate t0 r d of
        (Some ex, d1, evs) \<Rightarrow> (ex, d1, evs)
      | (None, d1, evs) \<Rightarrow>
          (case poll p chans rate t0 rest d1 of
             (ex, d2, evs2) \<Rightarrow> (ex, d2, evs @ evs2)))"

section \<open>Acquisition\<close>

definition check_sensor_types :: "(string \<times> string) list \<Rightarrow> (string \<times> string) list" where
  "check_sensor_types chans =
     map (\<lambda>(ch, sensor). (ch, if sensor \<in> set SENSOR_TYPES then sensor else ''RAW'')) chans"

text \<open>
  The body of the \<open>try\<close> in \<open>start_aquisition\<close>. The second component holds the
  locals \<open>sesssion_time_stamp\<close> and \<open>collected_data_in_this_session\<close> once they are
  bound (they are bound together); the process handle \<open>p\<close> is bound from then on when
  \<open>show_live_plot\<close> is set.
\<close>

definition try_body :: "attempt \<Rightarrow> params \<Rightarrow> device_state \<Rightarrow> loop_exit \<times> (string \<times> session) option \<times> device_state \<times> event list" where
  "try_body a p s =
     (case select_sampling_rate (samplingRate p) s of
        (Inl e, s1) \<Rightarrow> (Raised e, None, s1, [])
      | (Inr u, s1) \<Rightarrow>
          (case select_channels (map fst (channels p)) s1 of
             (Inl e, s2) \<Rightarrow> (Raised e, None, s2, [])
           | (Inr u, s2) \<Rightarrow>
               (let chans = check_sensor_types (channels p);
                    started = [Dev_start (sampling_rate s2) (selected_channels s2)]
                in case start_raises a of
                     Some msg \<Rightarrow> (Raised (Exception msg), None, s2, started)
                   | None \<Rightarrow>
                       (let spawned = (if show_live_plot p
                                       then [Plot_spawn (sampling_rate s2) (map snd chans)]
                                       else [])
                        in case poll p chans (sampling_rate s2) (t_start a) (reads a) [] of
                             (ex, d, evs) \<Rightarrow>
                               (ex, Some (time_stamp a, d), s2, started @ spawned @ evs)))))"

text \<open>
  \<open>pd.DataFrame(d)\<close> refuses arrays of different lengths; \<open>to_csv\<close> writes the column
  labels, then one line per row, and with \<open>index=True\<close> the row labels in front.
\<close>

definition DataFrame :: "session \<Rightarrow> exn + string list \<times> rat list list" where
  "DataFrame d =
     (if aligned (map snd d)
      then Inr (map fst d,
                map (\<lambda>i. map (\<lambda>col. col ! i) (map snd d))
                    [0 ..< (case d of [] \<Rightarrow> 0 | kv # _ \<Rightarrow> length (snd kv))])
      else Inl (ValueError ''All arrays must be of the same length''))"

definition to_csv :: "bool \<Rightarrow> string list \<times> rat list list \<Rightarrow> csv_file" where
  "to_csv index df =
     (if index
      then \<lparr>header = [] # fst df,
            body = map (\<lambda>(i, r). of_nat i # r) (zip [0 ..< length (snd df)] (snd df))\<rparr>
      else \<lparr>header = fst df, body = snd df\<rparr>)"

datatype outcome = Returned string session | Raises exn | Still_polling

text \<open>
  What follows the \<open>try\<close> statement: the plotting process is interrupted, the device
  stopped and closed, the session stored and, when asked for, written to a file.
\<close>

definition epilogue :: "attempt \<Rightarrow> params \<Rightarrow> (string \<times> session) option \<Rightarrow> manager \<Rightarrow> outcome \<times> manager \<times> event list" where
  "epilogue a p bound m =
     (if show_live_plot p \<and> bound = None then (Raises (UnboundLocalError ''p''), m, [])
      else
        (let sig = (if show_live_plot p \<and> plot_running a then [Plot_sigint] else []) in
         case force_stop_aquisition a of
           (Inl e, evs1) \<Rightarrow> (Raises e, m, sig @ evs1)
         | (Inr u, evs1) \<Rightarrow>
             (case disconnect a m of
                (Inl e, m1, evs2) \<Rightarrow> (Raises e, m1, sig @ evs1 @ evs2)
              | (Inr u, m1, evs2) \<Rightarrow>
                  (case bound of
                     None \<Rightarrow>
                       (Raises (UnboundLocalError ''collected_data_in_this_session''), m1,
                        sig @ evs1 @ evs2)
                   | Some (stamp, d) \<Rightarrow>
                       (let m2 = m1\<lparr>collected_data := dict_set (collected_data m1) stamp d\<rparr> in
                        if save_to_file p then
                          (case DataFrame d of
                             Inl e \<Rightarrow> (Raises e, m2, sig @ evs1 @ evs2)
                           | Inr df \<Rightarrow>
                               (Returned stamp d, m2,
                                sig @ evs1 @ evs2 @
                                [Csv_write (file_name_prefix p)
                                   (sampling_rate (device_state m2)) stamp (to_csv False df)]))
                        else (Returned stamp d, m2, sig @ evs1 @ evs2))))))"

text \<open>
  The arguments of the call in the device-busy branch: five keywords are passed on, the
  other parameters take their defaults.
\<close>

definition retry_params :: "params \<Rightarrow> params" where
  "retry_params p =
     default_params\<lparr>runtime := runtime p, samplingRate := samplingRate p,
       nSamples := nSamples p, show_live_plot := show_live_plot p,
       save_to_file := save_to_file p\<rparr>"

datatype step = Done outcome | Retry

text \<open>
  One invocation of \<open>start_aquisition\<close> up to its return, its exception or the
  recursive call of the device-busy branch.
\<close>

definition run_attempt :: "attempt \<Rightarrow> params \<Rightarrow> manager \<Rightarrow> step \<times> manager \<times> event list" where
  "run_attempt a p m =
     (case (if \<not> connected (device_state m) then connect (sdk a) (macAddress p) 5 False m
            else (Inr True, m, [])) of
        (Inl e, m1, evs0) \<Rightarrow> (Done (Raises e), m1, evs0)
      | (Inr c, m1, evs0) \<Rightarrow>
          (case try_body a p (device_state m1) of
             (ex, bound, s, evs1) \<Rightarrow>
               (let m2 = m1\<lparr>device_state := s\<rparr> in
                case ex of
                  Polling \<Rightarrow> (Done Still_polling, m2, evs0 @ evs1)
                | Timed_out \<Rightarrow>
                    (case epilogue a p bound m2 of
                       (r, m3, evs2) \<Rightarrow> (Done r, m3, evs0 @ evs1 @ evs2))
                | Raised e \<Rightarrow>
                    if e \<noteq> KeyboardInterrupt \<and> str_exn e \<noteq> CONTACTING_DEVICE
                       \<and> str_exn e = DEVICE_NOT_IDLE
                    then
                      (case force_stop_aquisition a of
                         (Inl e', evs2) \<Rightarrow> (Done (Raises e'), m2, evs0 @ evs1 @ evs2)
                       | (Inr u, evs2) \<Rightarrow> (Retry, m2, evs0 @ evs1 @ evs2))
                    else
                      (case epilogue a p bound m2 of
                         (r, m3, evs2) \<Rightarrow> (Done r, m3, evs0 @ evs1 @ evs2)))))"

text \<open>
  \<open>start_aquisition\<close>, with one script per invocation. When the scripts run out at a
  recursive call, the acquisition is still going on.
\<close>

fun start_aquisition :: "attempt list \<Rightarrow> params \<Rightarrow> manager \<Rightarrow> outcome \<times> manager \<times> event list" where
  "start_aquisition [] p m = (Still_polling, m, [])"
| "start_aquisition (a # later) p m =
     (case run_attempt a p m of
        (Done r, m1, evs) \<Rightarrow> (r, m1, evs)
      | (Retry, m1, evs) \<Rightarrow>
          (case start_aquisition later (retry_params p) m1 of
             (r, m2, evs2) \<Rightarrow> (r, m2, evs @ evs2)))"

section \<open>The initial state and the usage example\<close>

text \<open>
  The class attributes as the class body sets them, the call of \<open>usage_example.py\<close>,
  and an SDK whose calls in \<open>connect\<close> all succeed.
\<close>

definition initial_manager :: manager where
  "initial_manager =
     \<lparr>device_state = DEFAULT_DEVICE_STATE, connection_failed_counter = 0, collected_data = []\<rparr>"

definition usage_example :: params where
  "usage_example =
     \<lparr>runtime = 10, channels = [(''A1'', ''EDA''), (''A2'', ''ECG'')], samplingRate = 100,
      nSamples = 100, show_live_plot = True, macAddress = Some ''00:21:08:35:14:75'',
      save_to_file = True, file_name_prefix = ''BITALINO'', print_sample_log = False\<rparr>"

definition quiet_sdk :: sdk_connect where
  "quiet_sdk = \<lparr>open_raises = None, version_raises = None, state_raises = None\<rparr>"

section \<open>The line protocol of the live plot\<close>

text \<open>
  The sender writes \<open>json.dumps(_tmp) + '\n'\<close>; the receiver takes a line from its
  standard input, strips it and hands it to \<open>json.loads\<close>. The two functions of
  Python's \<open>json\<close> module are parameters: \<open>dumps\<close>, and \<open>loads\<close>, which gives
  \<open>None\<close> where the module raises.
\<close>

definition written_frames :: "event list \<Rightarrow> rat list list list" where
  "written_frames evs = concat (map (\<lambda>ev. case ev of Plot_write tmp \<Rightarrow> [tmp] | _ \<Rightarrow> []) evs)"

definition frame_line :: "(rat list list \<Rightarrow> string) \<Rightarrow> rat list list \<Rightarrow> string" where
  "frame_line dumps tmp = dumps tmp @ [CHR 0x0A]"

definition pipe_bytes :: "(rat list list \<Rightarrow> string) \<Rightarrow> event list \<Rightarrow> string" where
  "pipe_bytes dumps evs = concat (map (frame_line dumps) (written_frames evs))"

definition readline :: "string \<Rightarrow> string \<times> string" where
  "readline buf =
     (case dropWhile (\<lambda>c. c \<noteq> CHR 0x0A) buf of
        [] \<Rightarrow> (buf, [])
      | nl # rest \<Rightarrow> (takeWhile (\<lambda>c. c \<noteq> CHR 0x0A) buf @ [nl], rest))"

definition is_space :: "char \<Rightarrow> bool" where
  "is_space c =
     (c \<in> set [CHR 0x09, CHR 0x0A, CHR 0x0B, CHR 0x0C, CHR 0x0D,
                CHR 0x1C, CHR 0x1D, CHR 0x1E, CHR 0x1F, CHR 0x20])"

definition strip :: "string \<Rightarrow> string" where
  "strip s = rev (dropWhile is_space (rev (dropWhile is_space s)))"

lemma readline_shorter:
  assumes "buf \<noteq> []"
  shows "length (snd (readline buf)) < length buf"
proof (cases "dropWhile (\<lambda>c. c \<noteq> CHR 0x0A) buf")
  case Nil
  show ?thesis unfolding readline_def Nil using assms by simp
next
  case (Cons nl rest)
  have "length (dropWhile (\<lambda>c. c \<noteq> CHR 0x0A) buf) \<le> length buf"
    by (rule length_dropWhile_le)
  with Cons have "Suc (length rest) \<le> length buf" by simp
  then show ?thesis unfolding readline_def Cons by simp
qed

text \<open>
  The receiver's loop over what the pipe holds: every line is decoded and drawn; the
  loop ends when the buffer is used up (the next \<open>readline\<close> blocks) or when
  \<open>json.loads\<close> raises, which ends the process.
\<close>

function receive :: "(string \<Rightarrow> rat list list option) \<Rightarrow> string \<Rightarrow> rat list list list" where
  "receive loads buf =
     (if buf = [] then []
      else (case loads (strip (fst (readline buf))) of
              None \<Rightarrow> []
            | Some arr \<Rightarrow> arr # receive loads (snd (readline buf))))"
  by pat_completeness auto
termination
  by (relation "measure (\<lambda>(loads, buf). length buf)") (simp_all add: readline_shorter)

declare receive.simps [simp del]

text \<open>
  What the statements below assume of Python's \<open>json\<close> module for one frame: the
  text \<open>dumps\<close> gives for a list starts with \<open>[\<close>, ends with \<open>]\<close> and holds no
  newline (no \<open>indent\<close> is asked for), and \<open>loads\<close> gives the list back.
\<close>

definition json_array_codec :: "(rat list list \<Rightarrow> string) \<Rightarrow> (string \<Rightarrow> rat list list option) \<Rightarrow> rat list list \<Rightarrow> bool" where
  "json_array_codec dumps loads tmp =
     (dumps tmp \<noteq> []
      \<and> hd (dumps tmp) = CHR ''[''
      \<and> last (dumps tmp) = CHR '']''
      \<and> CHR 0x0A \<notin> set (dumps tmp)
      \<and> loads (dumps tmp) = Some tmp)"


section \<open>What a frame should hold\<close>

text \<open>
  The last \<open>60 * rate\<close> entries of every array of a session (all of an array that is
  shorter): the most recent minute at \<open>rate\<close> samples per second.
\<close>

definition last_minute :: "int \<Rightarrow> session \<Rightarrow> rat list list" where
  "last_minute rate d = map (\<lambda>a. drop (length a - nat (60 * rate)) a) (map snd d)"

text \<open>
  The sessions at the moments a frame is written, in order: in the loop, the session as
  it stands at the end of every iteration that reaches \<open>p.stdin.write\<close>; for one
  invocation, those of its loop when it gets that far (the device is connected, rate
  and channels are accepted, and the device starts); for an acquisition, those of its
  invocations one after the other.
\<close>

fun poll_plotted :: "params \<Rightarrow> (string \<times> string) list \<Rightarrow> int \<Rightarrow> rat \<Rightarrow> (read_result \<times> rat) list \<Rightarrow> session \<Rightarrow> session list" where
  "poll_plotted p chans rate t0 [] d = []"
| "poll_plotted p chans rate t0 (r # rest) d =
     (case iteration p chans rate t0 r d of
        (x, d1, evs) \<Rightarrow>
          (if written_frames evs = [] then [] else [d1]) @
          (case x of None \<Rightarrow> poll_plotted p chans rate t0 rest d1 | Some ex \<Rightarrow> []))"

definition loop_reached :: "attempt \<Rightarrow> params \<Rightarrow> manager \<Rightarrow> bool" where
  "loop_reached a p m =
     (case (if \<not> connected (device_state m) then connect (sdk a) (macAddress p) 5 False m
            else (Inr True, m, [])) of
        (Inl e, m1, evs0) \<Rightarrow> False
      | (Inr c, m1, evs0) \<Rightarrow>
          (case try_body a p (device_state m1) of (ex, bound, s, evs) \<Rightarrow> bound \<noteq> None))"

definition attempt_plotted :: "attempt \<Rightarrow> params \<Rightarrow> manager \<Rightarrow> session list" where
  "attempt_plotted a p m =
     (if loop_reached a p m
      then poll_plotted p (check_sensor_types (channels p)) (samplingRate p) (t_start a)
             (reads a) []
      else [])"

fun run_plotted :: "attempt list \<Rightarrow> params \<Rightarrow> manager \<Rightarrow> session list" where
  "run_plotted [] p m = []"
| "run_plotted (a # later) p m =
     attempt_plotted a p m @
     (case run_attempt a p m of
        (Retry, m1, evs) \<Rightarrow> run_plotted later (retry_params p) m1
      | (Done r, m1, evs) \<Rightarrow> [])"

section \<open>Predicates on event lists\<close>

text \<open>
  Every row of every frame written to the plotting process has at most \<open>k\<close> entries;
  and what one invocation may do to the sampling rate of the device state.
\<close>

definition frames_within :: "int \<Rightarrow> event list \<Rightarrow> bool" where
  "frames_within k evs =
     list_all (\<lambda>tmp. list_all (\<lambda>row. int (length row) \<le> k) tmp) (written_frames evs)"

definition rate_kept :: "params \<Rightarrow> event list \<Rightarrow> device_state \<Rightarrow> device_state \<Rightarrow> bool" where
  "rate_kept p evs s s' =
     (frames_within (60 * samplingRate p) evs
      \<and> (sampling_rate s' = sampling_rate s \<and> written_frames evs = []
         \<or> sampling_rate s' = samplingRate p))"

text \<open>
  What a polling iteration may do to the keys of the session: they stay distinct, none
  is lost, and a new one is the sensor type of a requested channel.
\<close>

definition keys_grow :: "(string \<times> string) list \<Rightarrow> session \<Rightarrow> session \<Rightarrow> bool" where
  "keys_grow chans d d' =
     (distinct (dict_keys d')
      \<and> set (dict_keys d) \<subseteq> set (dict_keys d')
      \<and> set (dict_keys d') \<subseteq> set (dict_keys d) \<union> set (map snd chans))"

text \<open>
  A session in which every requested sensor type has collected \<open>n\<close> samples, under
  keys that are sensor types of requested channels.
\<close>

definition uniform :: "(string \<times> string) list \<Rightarrow> nat \<Rightarrow> session \<Rightarrow> bool" where
  "uniform chans n d =
     (distinct (dict_keys d)
      \<and> set (dict_keys d) \<subseteq> set (map snd chans)
      \<and> list_all (\<lambda>k. length (dict_get d k []) = n) (map snd chans))"

section \<open>Channel selection\<close>

lemma map_of_accepted:
  "accepted c \<Longrightarrow> map_of ACQ_CHANNELS c = Some (channel_index c)"
  by (auto simp: accepted_def channel_index_def dict_get_def ACQ_CHANNELS_def)

lemma map_of_not_accepted:
  "\<not> accepted c \<Longrightarrow> map_of ACQ_CHANNELS c = None"
  by (simp add: accepted_def map_of_eq_None_iff)

lemma select_channels_loop_accepted:
  "list_all accepted cs \<Longrightarrow>
     select_channels_loop (cs @ rest) s =
       select_channels_loop rest
         (s\<lparr>selected_channels := selected_channels s @ map channel_index cs\<rparr>)"
proof (induction cs arbitrary: s)
  case Nil
  then show ?case by simp
next
  case (Cons c cs)
  then show ?case by (simp add: map_of_accepted)
qed

text \<open>
  C8. When the list holds a name outside A1..A6, \<open>_select_channels\<close> raises the
  invalid-channel exception for the first such name, and the state it leaves is not the
  one it found: the selection has been reset and holds the indices of the accepted
  names before the first invalid one, whatever was selected before.
\<close>

theorem select_channels_invalid:
  assumes "\<not> list_all accepted chs"
  shows "select_channels chs s =
           (Inl (Exception (''[Invalid channel] : '' @ hd (dropWhile accepted chs) @
                   ''. Select from accepted channel values : A1, A2, A3, A4, A5, A6'')),
            s\<lparr>selected_channels := map channel_index (takeWhile accepted chs)\<rparr>)"
proof -
  let ?ok = "takeWhile accepted chs"
  from assms have ne: "dropWhile accepted chs \<noteq> []"
    by (simp add: list_all_iff)
  then obtain bad rest where dw: "dropWhile accepted chs = bad # rest"
    by (cases "dropWhile accepted chs") auto
  have bad: "\<not> accepted bad"
    using dw hd_dropWhile [of accepted chs] ne by auto
  have split: "chs = ?ok @ bad # rest"
    using takeWhile_dropWhile_id [of accepted chs] dw by simp
  have ok: "list_all accepted ?ok"
    by (simp add: list_all_iff) (meson set_takeWhileD)
  have "select_channels chs s =
      select_channels_loop (bad # rest)
        (s\<lparr>selected_channels := map channel_index ?ok\<rparr>)"
    unfolding select_channels_def
    by (subst split) (simp add: select_channels_loop_accepted [OF ok])
  then show ?thesis
    using bad dw by (simp add: map_of_not_accepted)
qed

theorem select_channels_invalid_witness:
  "\<not> list_all accepted [''A2'', ''A4'', ''B7'', ''A1'']
   \<and> select_channels [''A2'', ''A4'', ''B7'', ''A1'']
        \<lparr>MAC = [], selected_channels = [5], sampling_rate = 100, connected = True\<rparr>
       = (Inl (Exception (''[Invalid channel] : B7'' @
               ''. Select from accepted channel values : A1, A2, A3, A4, A5, A6'')),
          \<lparr>MAC = [], selected_channels = [1, 3], sampling_rate = 100, connected = True\<rparr>)"
  using select_channels_invalid
    [of "[''A2'', ''A4'', ''B7'', ''A1'']"
        "\<lparr>MAC = [], selected_channels = [5], sampling_rate = 100, connected = True\<rparr>"]
  by (simp add: accepted_def ACQ_CHANNELS_def channel_index_def dict_get_def)

section \<open>Sampling rate\<close>

text \<open>
  C9. \<open>_select_sampling_rate\<close> stores a rate among 1, 10, 100 and 1000. For every
  other rate it raises \<open>AttributeError\<close>: the fallback reads the attribute
  \<open>sampling_rate\<close> of \<open>DEFAULT_DEVICE_STATE\<close>, a plain dict, and the state keeps the
  rate it had, so the default of 100 is never selected by this path.
\<close>

theorem select_sampling_rate_cases:
  "select_sampling_rate rate s =
     (if rate \<in> {1, 10, 100, 1000} then (Inr (), s\<lparr>sampling_rate := rate\<rparr>)
      else (Inl (AttributeError
                  (quoted ''dict'' @ '' object has no attribute '' @ quoted ''sampling_rate'')),
            s))"
  by (simp add: select_sampling_rate_def plain_dict_getattr_def)

section \<open>Connecting to the device\<close>

text \<open>
  What \<open>connect\<close> does when an address is given: a call of the SDK that raises is
  reported under the tag, counted, and the state is marked as not connected; when no
  call raises the device is connected and the counter is reset.
\<close>

lemma connect_success:
  assumes "open_raises k = None" and "version_raises k = None"
      and "print_state \<Longrightarrow> state_raises k = None"
  shows "connect k (Some a) timeout print_state m =
     (Inr True,
      m\<lparr>connection_failed_counter := 0,
        device_state := (device_state m)\<lparr>MAC := a, connected := True\<rparr>\<rparr>,
      Dev_open a timeout # Dev_version # (if print_state then [Dev_state] else []))"
  using assms by (simp add: connect_def connect_try_def Let_def)

lemma connect_sdk_raises:
  assumes "fst (connect_try k (Some a) timeout print_state) = Inl e"
  shows "\<exists>msg. e = Exception msg \<and> fst (connect k (Some a) timeout print_state m) =
            Inl (Exception (''[Connection Error] : '' @ msg))
         \<and> fst (snd (connect k (Some a) timeout print_state m)) =
             m\<lparr>connection_failed_counter := connection_failed_counter m + 1,
               device_state := (device_state m)\<lparr>connected := False\<rparr>\<rparr>"
  using assms
  by (auto simp: connect_def connect_try_def split: option.splits if_splits)

text \<open>
  C5. The claim is that \<open>connect\<close>, for every \<open>macAddress\<close>, returns \<open>True\<close> with
  the counter reset when no SDK call raises. For the default \<open>macAddress = None\<close> the
  code reads \<open>DEFAULT_DEVICE_STATE.MAC\<close> from a plain dict: whatever the SDK would
  answer, no SDK call is made, the \<open>AttributeError\<close> is reported under the connection
  tag, the failure counter goes up by one and the state is marked as not connected.
\<close>

theorem connect_default_address_raises:
  "connect k None timeout print_state m =
     (Inl (Exception (''[Connection Error] : '' @ quoted ''dict'' @
             '' object has no attribute '' @ quoted ''MAC'')),
      m\<lparr>connection_failed_counter := connection_failed_counter m + 1,
        device_state := (device_state m)\<lparr>connected := False\<rparr>\<rparr>,
      [])"
  by (simp add: connect_def connect_try_def plain_dict_getattr_def)

section \<open>Values of the transfer functions\<close>

text \<open>
  The doubles the two functions give for some counts, as exact fractions. In decimal
  notation: EDA gives 12.499999999999998 for 512, 24.999999999999996 for 1024 and
  7.32421875 for 300; ECG gives -1.4999999999999998 for 0, 0.0 for 512,
  1.4999999999999998 for 1024 and -0.6210937499999999 for 300.
\<close>

lemma raw_to_eda_uS_values:
  "raw_to_eda_uS [512, 1024, 300] =
     [7036874417766399 / 562949953421312, 7036874417766399 / 281474976710656, 1875 / 256]"
  by code_simp

lemma raw_to_ecg_mv_values:
  "raw_to_ecg_mv [0, 512, 1024, 300] =
     [- (6755399441055743 / 4503599627370496), 0, 6755399441055743 / 4503599627370496,
      - (5594315162124287 / 9007199254740992)]"
  by code_simp

lemma raw_to_eda_uS_run: "raw_to_eda_uS [512, 1024] =
     [7036874417766399 / 562949953421312, 7036874417766399 / 281474976710656]"
  by code_simp

lemma raw_to_ecg_mv_run:
  "raw_to_ecg_mv [512, 0] = [0, - (6755399441055743 / 4503599627370496)]"
  "raw_to_ecg_mv [512] = [0]"
  by code_simp+

section \<open>Runs of the usage example\<close>

lemmas model_defs =
  run_attempt_def try_body_def epilogue_def connect_def connect_try_def disconnect_def
  force_stop_aquisition_def select_sampling_rate_def select_channels_def ACQ_CHANNELS_def
  check_sensor_types_def SENSOR_TYPES_def iteration_def sensor_data_def column_def
  COLUMN_OFFSET_def store_def dict_get_def plot_frame_def np_array_def slice_from_def
  DataFrame_def to_csv_def raw_to_eda_uS_run raw_to_ecg_mv_run
  CONTACTING_DEVICE_def DEVICE_NOT_IDLE_def DEFAULT_DEVICE_STATE_def
  initial_manager_def usage_example_def quiet_sdk_def retry_params_def default_params_def
  Let_def

lemma sensor_data_EDA_is_raw:
  "sensor_data b i ''EDA'' = map_sum id (map of_int) (column b (COLUMN_OFFSET + i))"
  by (cases "column b (COLUMN_OFFSET + i)") (simp_all add: sensor_data_def)

text \<open>
  C1. The claim is that a channel configured as EDA is stored after the EDA transfer
  function, and one configured as ECG after the ECG transfer function. In the run of
  the usage example below (one batch of two samples, channel A1 as EDA with raw counts
  512 and 1024, channel A2 as ECG with raw counts 512 and 0) the ECG column is stored
  converted (0.0 and -1.4999999999999998), but the EDA column is stored as the raw
  counts 512 and 1024, where the transfer function gives 12.499999999999998 and
  24.999999999999996: the \<open>else\<close> of the ECG test overwrites the EDA conversion.
\<close>

theorem usage_example_stores_raw_EDA:
  "fst (start_aquisition
     [\<lparr>sdk = quiet_sdk, start_raises = None, t_start = 0, time_stamp = ''04-11-2026-080000'',
       reads = [(Batch \<lparr>width = 7, samples = [[0, 0, 0, 0, 0, 512, 512],
                                                 [1, 0, 0, 0, 0, 1024, 0]]\<rparr>, 10)],
       plot_running = True, stop_raises = None, close_raises = None\<rparr>]
     usage_example initial_manager)
     = Returned ''04-11-2026-080000''
         [(''EDA'', [512, 1024]), (''ECG'', [0, - (6755399441055743 / 4503599627370496)])]
   \<and> raw_to_eda_uS [512, 1024] =
         [7036874417766399 / 562949953421312, 7036874417766399 / 281474976710656]
   \<and> raw_to_ecg_mv [512, 0] = [0, - (6755399441055743 / 4503599627370496)]"
  by (simp add: model_defs)

text \<open>
  C2. The claim is that the device-busy branch stops the device and calls
  \<open>start_aquisition\<close> again with all nine parameters as given. In the run below the
  first \<open>read\<close> of the usage example raises the device-busy exception: the device is
  stopped and the acquisition restarted, but on channel A1 alone (index 0) as EDA, and
  with no address: \<open>channels\<close>, \<open>macAddress\<close>, \<open>file_name_prefix\<close> and
  \<open>print_sample_log\<close> are not passed on and take their defaults.
\<close>

theorem usage_example_retry_drops_arguments:
  "start_aquisition
     [\<lparr>sdk = quiet_sdk, start_raises = None, t_start = 0, time_stamp = ''04-11-2026-080000'',
       reads = [(Read_raises (Exception DEVICE_NOT_IDLE), 0)],
       plot_running = True, stop_raises = None, close_raises = None\<rparr>,
      \<lparr>sdk = quiet_sdk, start_raises = None, t_start = 1, time_stamp = ''04-11-2026-080001'',
       reads = [(Batch \<lparr>width = 6, samples = [[0, 0, 0, 0, 0, 512]]\<rparr>, 11)],
       plot_running = True, stop_raises = None, close_raises = None\<rparr>]
     usage_example initial_manager
   = (Returned ''04-11-2026-080001'' [(''EDA'', [512])],
      \<lparr>device_state = \<lparr>MAC = ''00:21:08:35:14:75'', selected_channels = [0],
                        sampling_rate = 100, connected = False\<rparr>,
       connection_failed_counter = 0,
       collected_data = [(''04-11-2026-080001'', [(''EDA'', [512])])]\<rparr>,
      [Dev_open ''00:21:08:35:14:75'' 5, Dev_version,
       Dev_start 100 [0, 1], Plot_spawn 100 [''EDA'', ''ECG''], Dev_read 100, Dev_stop,
       Dev_start 100 [0], Plot_spawn 100 [''EDA''], Dev_read 100, Plot_write [[512]],
       Plot_sigint, Dev_stop, Dev_close,
       Csv_write ''BITALINO'' 100 ''04-11-2026-080001'' \<lparr>header = [''EDA''], body = [[512]]\<rparr>])
   \<and> retry_params usage_example =
       usage_example\<lparr>channels := [(''A1'', ''EDA'')], macAddress := None\<rparr>
   \<and> retry_params usage_example \<noteq> usage_example"
  by (simp add: model_defs)

text \<open>
  C3. The claim is that after every polling iteration all arrays of the session have
  one length, for every set of requested channels. The session is keyed by sensor type:
  with channels A1 and A2 both read as RAW and A3 as ECG, one batch of one sample leaves
  two values under RAW and one under ECG. The session is returned that way; asked to
  save it, \<open>pd.DataFrame\<close> refuses it.
\<close>

theorem shared_sensor_type_misaligns:
  "fst (start_aquisition
     [\<lparr>sdk = quiet_sdk, start_raises = None, t_start = 0, time_stamp = ''04-11-2026-080000'',
       reads = [(Batch \<lparr>width = 8, samples = [[0, 0, 0, 0, 0, 512, 300, 512]]\<rparr>, 10)],
       plot_running = False, stop_raises = None, close_raises = None\<rparr>]
     (usage_example\<lparr>channels := [(''A1'', ''RAW''), (''A2'', ''RAW''), (''A3'', ''ECG'')],
        show_live_plot := False, save_to_file := False\<rparr>)
     initial_manager)
     = Returned ''04-11-2026-080000'' [(''RAW'', [512, 300]), (''ECG'', [0])]
   \<and> \<not> aligned (map snd [(''RAW'', [512, 300 :: rat]), (''ECG'', [0])])
   \<and> fst (start_aquisition
     [\<lparr>sdk = quiet_sdk, start_raises = None, t_start = 0, time_stamp = ''04-11-2026-080000'',
       reads = [(Batch \<lparr>width = 8, samples = [[0, 0, 0, 0, 0, 512, 300, 512]]\<rparr>, 10)],
       plot_running = False, stop_raises = None, close_raises = None\<rparr>]
     (usage_example\<lparr>channels := [(''A1'', ''RAW''), (''A2'', ''RAW''), (''A3'', ''ECG'')],
        show_live_plot := False, save_to_file := True\<rparr>)
     initial_manager)
     = Raises (ValueError ''All arrays must be of the same length'')"
  by (simp add: model_defs)

section \<open>Frames of the live plot\<close>

lemma written_frames_append:
  "written_frames (xs @ ys) = written_frames xs @ written_frames ys"
  by (simp add: written_frames_def)

lemma written_frames_Cons:
  "written_frames (ev # evs) =
     (case ev of Plot_write tmp \<Rightarrow> [tmp] | _ \<Rightarrow> []) @ written_frames evs"
  by (simp add: written_frames_def)

lemma written_frames_Nil: "written_frames [] = []"
  by (simp add: written_frames_def)

lemma frames_within_append:
  "frames_within k (xs @ ys) \<longleftrightarrow> frames_within k xs \<and> frames_within k ys"
  by (simp add: frames_within_def written_frames_append)

lemma slice_from_bound:
  assumes "0 < k"
  shows "int (length (slice_from (- k) xs)) \<le> k"
  using assms by (simp add: slice_from_def)

lemma plot_frame_bound:
  assumes "0 < rate" and "plot_frame rate d = Inr tmp"
  shows "list_all (\<lambda>row. int (length row) \<le> 60 * rate) tmp"
proof -
  from assms(1) have k: "0 < 60 * rate" by simp
  from assms(2) have "tmp = map (slice_from (- (60 * rate))) (map snd d)"
    by (auto simp: plot_frame_def np_array_def Let_def split: if_splits)
  then show ?thesis
    using slice_from_bound [OF k] by (auto simp: list_all_iff)
qed

lemma written_part_frames:
  assumes "0 < rate"
      and "(if live then map_sum id (\<lambda>tmp. [Plot_write tmp]) (plot_frame rate d) else Inr []) = Inr w"
  shows "frames_within (60 * rate) w"
proof (cases live)
  case False
  with assms(2) show ?thesis by (simp add: frames_within_def written_frames_Nil)
next
  case True
  with assms(2) obtain tmp where "plot_frame rate d = Inr tmp" and "w = [Plot_write tmp]"
    by (cases "plot_frame rate d") auto
  with plot_frame_bound [OF assms(1)] show ?thesis
    by (simp add: frames_within_def written_frames_def)
qed

lemma iteration_frames:
  assumes "0 < rate" and "iteration p chans rate t0 r d = (x, d', evs)"
  shows "frames_within (60 * rate) evs"
  using assms(2) written_part_frames [OF assms(1), of "show_live_plot p"]
  by (auto simp: iteration_def frames_within_def written_frames_Cons written_frames_Nil
           split: read_result.splits prod.splits option.splits sum.splits)

lemma poll_frames:
  assumes "0 < rate" and "poll p chans rate t0 rs d = (x, d', evs)"
  shows "frames_within (60 * rate) evs"
  using assms(2)
proof (induction rs arbitrary: d x d' evs)
  case Nil
  then show ?case by (simp add: frames_within_def written_frames_Nil)
next
  case (Cons r rs)
  obtain y d1 evs1 where it: "iteration p chans rate t0 r d = (y, d1, evs1)"
    by (cases "iteration p chans rate t0 r d") auto
  have f1: "frames_within (60 * rate) evs1"
    by (rule iteration_frames [OF assms(1) it])
  show ?case
  proof (cases y)
    case (Some ex)
    with Cons.prems it f1 show ?thesis by simp
  next
    case None
    obtain x2 d2 evs2 where po: "poll p chans rate t0 rs d1 = (x2, d2, evs2)"
      by (cases "poll p chans rate t0 rs d1") auto
    from Cons.IH [OF po] have "frames_within (60 * rate) evs2" .
    with Cons.prems it None po f1 show ?thesis
      by (auto simp: frames_within_append)
  qed
qed


lemma select_sampling_rate_Inr:
  assumes "select_sampling_rate rate s = (Inr u, s1)"
  shows "rate \<in> {1, 10, 100, 1000} \<and> s1 = s\<lparr>sampling_rate := rate\<rparr>"
  using assms
  by (auto simp: select_sampling_rate_def plain_dict_getattr_def split: if_splits)

lemma select_sampling_rate_Inl:
  assumes "select_sampling_rate rate s = (Inl e, s1)"
  shows "s1 = s"
  using assms
  by (auto simp: select_sampling_rate_def plain_dict_getattr_def split: if_splits)

lemma select_channels_loop_rate:
  "sampling_rate (snd (select_channels_loop cs s)) = sampling_rate s"
  by (induction cs arbitrary: s) (auto split: option.splits)

lemma select_channels_rate:
  "sampling_rate (snd (select_channels cs s)) = sampling_rate s"
  by (simp add: select_channels_def select_channels_loop_rate)

lemma try_body_rate:
  assumes "try_body a p s = (ex, bound, s', evs)"
  shows "rate_kept p evs s s'"
proof (cases "select_sampling_rate (samplingRate p) s")
  case (Pair r1 s1)
  show ?thesis
  proof (cases r1)
    case (Inl e)
    with Pair assms select_sampling_rate_Inl [of "samplingRate p" s e s1] show ?thesis
      by (simp add: try_body_def rate_kept_def frames_within_def written_frames_Nil)
  next
    case (Inr u)
    with Pair select_sampling_rate_Inr [of "samplingRate p" s u s1]
    have ok: "samplingRate p \<in> {1, 10, 100, 1000}" and s1: "sampling_rate s1 = samplingRate p"
      by auto
    from ok have pos: "0 < samplingRate p" by auto
    obtain r2 s2 where sc: "select_channels (map fst (channels p)) s1 = (r2, s2)"
      by (cases "select_channels (map fst (channels p)) s1") auto
    with select_channels_rate [of "map fst (channels p)" s1] s1
    have s2: "sampling_rate s2 = samplingRate p" by simp
    show ?thesis
    proof (cases r2)
      case (Inl e)
      with Pair Inr sc assms s2 show ?thesis
        by (auto simp: try_body_def rate_kept_def frames_within_def written_frames_Nil)
    next
      case r2: (Inr u2)
      show ?thesis
      proof (cases "start_raises a")
        case (Some msg)
        with Pair Inr sc r2 assms s2 show ?thesis
          by (auto simp: try_body_def rate_kept_def frames_within_def written_frames_def Let_def)
      next
        case None
        obtain x d evs1 where po:
          "poll p (check_sensor_types (channels p)) (samplingRate p) (t_start a) (reads a) []
             = (x, d, evs1)"
          by (cases "poll p (check_sensor_types (channels p)) (samplingRate p) (t_start a)
                       (reads a) []") auto
        from poll_frames [OF pos po] have "frames_within (60 * samplingRate p) evs1" .
        with Pair Inr sc r2 None assms s2 po show ?thesis
          by (auto simp: try_body_def rate_kept_def frames_within_def written_frames_def Let_def)
      qed
    qed
  qed
qed

lemma connect_rate:
  assumes "connect k mac timeout ps m = (r, m', evs)"
  shows "sampling_rate (device_state m') = sampling_rate (device_state m) \<and> written_frames evs = []"
  using assms
  by (auto simp: connect_def connect_try_def plain_dict_getattr_def written_frames_def Let_def
           split: option.splits if_splits prod.splits sum.splits)

lemma force_stop_frames:
  assumes "force_stop_aquisition a = (r, evs)"
  shows "written_frames evs = []"
  using assms
  by (auto simp: force_stop_aquisition_def written_frames_def split: option.splits)

lemma disconnect_rate:
  assumes "disconnect a m = (r, m', evs)"
  shows "sampling_rate (device_state m') = sampling_rate (device_state m) \<and> written_frames evs = []"
  using assms
  by (auto simp: disconnect_def written_frames_def split: option.splits)

lemma epilogue_rate:
  assumes "epilogue a p bound m = (r, m', evs)"
  shows "sampling_rate (device_state m') = sampling_rate (device_state m) \<and> written_frames evs = []"
proof -
  obtain r1 evs1 where fs: "force_stop_aquisition a = (r1, evs1)"
    by (cases "force_stop_aquisition a") auto
  obtain r2 m1 evs2 where dc: "disconnect a m = (r2, m1, evs2)"
    by (cases "disconnect a m") auto
  note f1 = force_stop_frames [OF fs] and f2 = disconnect_rate [OF dc]
  have sig: "written_frames (if show_live_plot p \<and> plot_running a then [Plot_sigint] else []) = []"
    by (simp add: written_frames_def)
  show ?thesis
    using assms fs dc f1 f2 sig
    by (auto simp: epilogue_def Let_def written_frames_append written_frames_Nil
                   written_frames_Cons
             split: if_splits sum.splits option.splits prod.splits)
qed


lemma run_attempt_rate:
  assumes "run_attempt a p m = (st, m', evs)"
  shows "rate_kept p evs (device_state m) (device_state m')"
proof -
  obtain r0 m1 evs0 where co:
    "(if \<not> connected (device_state m) then connect (sdk a) (macAddress p) 5 False m
      else (Inr True, m, [])) = (r0, m1, evs0)"
    by (cases "if \<not> connected (device_state m) then connect (sdk a) (macAddress p) 5 False m
               else (Inr True, m, [])") auto
  have c0: "sampling_rate (device_state m1) = sampling_rate (device_state m)
            \<and> written_frames evs0 = []"
    using co connect_rate [of "sdk a" "macAddress p" 5 False m r0 m1 evs0]
    by (auto simp: written_frames_Nil split: if_splits)
  show ?thesis
  proof (cases r0)
    case (Inl e)
    with co assms c0 show ?thesis
      by (auto simp: run_attempt_def rate_kept_def frames_within_def)
  next
    case (Inr c)
    obtain ex bound s evs1 where tb: "try_body a p (device_state m1) = (ex, bound, s, evs1)"
      by (cases "try_body a p (device_state m1)") auto
    from try_body_rate [OF tb] have k1: "rate_kept p evs1 (device_state m1) s" .
    obtain r2 m3 evs2 where ep:
      "epilogue a p bound (m1\<lparr>device_state := s\<rparr>) = (r2, m3, evs2)"
      by (cases "epilogue a p bound (m1\<lparr>device_state := s\<rparr>)") auto
    from epilogue_rate [OF ep]
    have k2: "sampling_rate (device_state m3) = sampling_rate s" "written_frames evs2 = []"
      by simp_all
    obtain r3 evs3 where fs: "force_stop_aquisition a = (r3, evs3)"
      by (cases "force_stop_aquisition a") auto
    from force_stop_frames [OF fs] have k3: "written_frames evs3 = []" .
    have via_epilogue: "rate_kept p (evs0 @ evs1 @ evs2) (device_state m) (device_state m3)"
      using c0 k1 k2
      by (auto simp: rate_kept_def frames_within_def written_frames_append)
    have via_stop: "rate_kept p (evs0 @ evs1 @ evs3) (device_state m) s"
      using c0 k1 k3
      by (auto simp: rate_kept_def frames_within_def written_frames_append)
    have still: "rate_kept p (evs0 @ evs1) (device_state m) s"
      using c0 k1
      by (auto simp: rate_kept_def frames_within_def written_frames_append)
    show ?thesis
      using assms co Inr tb ep fs via_epilogue via_stop still
      by (auto simp: run_attempt_def Let_def
               split: loop_exit.splits if_splits sum.splits)
  qed
qed

lemma samplingRate_retry: "samplingRate (retry_params p) = samplingRate p"
  by (simp add: retry_params_def)

lemma start_aquisition_rate:
  assumes "start_aquisition scripts p m = (r, m', evs)"
  shows "rate_kept p evs (device_state m) (device_state m')"
  using assms
proof (induction scripts arbitrary: p m r m' evs)
  case Nil
  then show ?case by (simp add: rate_kept_def frames_within_def written_frames_Nil)
next
  case (Cons a later)
  obtain st m1 evs1 where ra: "run_attempt a p m = (st, m1, evs1)"
    by (cases "run_attempt a p m") auto
  from run_attempt_rate [OF ra] have k1: "rate_kept p evs1 (device_state m) (device_state m1)" .
  show ?case
  proof (cases st)
    case (Done res)
    with Cons.prems ra k1 show ?thesis by auto
  next
    case Retry
    obtain r2 m2 evs2 where sa: "start_aquisition later (retry_params p) m1 = (r2, m2, evs2)"
      by (cases "start_aquisition later (retry_params p) m1") auto
    from Cons.IH [OF sa]
    have k2: "rate_kept (retry_params p) evs2 (device_state m1) (device_state m2)" .
    from Cons.prems ra Retry sa have "m' = m2" and "evs = evs1 @ evs2" by auto
    with k1 k2 show ?thesis
      by (auto simp: rate_kept_def samplingRate_retry frames_within_def written_frames_append)
  qed
qed

section \<open>Columns of the CSV file\<close>

lemma dict_keys_Nil: "dict_keys [] = []"
  by (simp add: dict_keys_def)

lemma keys_dict_set:
  "dict_keys (dict_set d k v) = (if k \<in> set (dict_keys d) then dict_keys d else dict_keys d @ [k])"
  unfolding dict_keys_def
proof (induction d)
  case Nil
  show ?case by simp
next
  case (Cons kv d)
  obtain k' v' where kv: "kv = (k', v')" by (cases kv) auto
  show ?case
  proof (cases "k' = k")
    case True
    with kv show ?thesis by simp
  next
    case False
    with kv Cons.IH show ?thesis by simp
  qed
qed

lemma keys_store:
  "dict_keys (store d k v) = (if k \<in> set (dict_keys d) then dict_keys d else dict_keys d @ [k])"
  by (simp add: store_def keys_dict_set)

lemma distinct_store:
  "distinct (dict_keys d) \<Longrightarrow> distinct (dict_keys (store d k v))"
  by (simp add: keys_store)

lemma convert_store_keys:
  assumes "convert_store b i chans d = (e, d')" and "distinct (dict_keys d)"
  shows "distinct (dict_keys d')
       \<and> set (dict_keys d) \<subseteq> set (dict_keys d')
       \<and> set (dict_keys d') \<subseteq> set (dict_keys d) \<union> set (map snd chans)
       \<and> (e = None \<longrightarrow> set (map snd chans) \<subseteq> set (dict_keys d'))"
  using assms
proof (induction chans arbitrary: i d)
  case Nil
  then show ?case by auto
next
  case (Cons c chans)
  obtain ch sensor where c: "c = (ch, sensor)" by (cases c) auto
  show ?case
  proof (cases "sensor_data b i sensor")
    case (Inl err)
    with Cons.prems c show ?thesis by (auto simp del: set_map)
  next
    case (Inr v)
    with Cons.prems c have rec: "convert_store b (Suc i) chans (store d sensor v) = (e, d')"
      by simp
    have keys: "set (dict_keys (store d sensor v)) = insert sensor (set (dict_keys d))"
      by (auto simp: keys_store)
    from Cons.IH [OF rec distinct_store [OF Cons.prems(2)]] keys c
    show ?thesis by (auto simp del: set_map)
  qed
qed

lemma sensor_data_in_range:
  assumes "COLUMN_OFFSET + i < width b"
  shows "\<exists>v. sensor_data b i sensor = Inr v"
  using assms by (simp add: sensor_data_def column_def)

lemma convert_store_complete:
  assumes "COLUMN_OFFSET + i + length chans \<le> width b"
  shows "fst (convert_store b i chans d) = None"
  using assms
proof (induction chans arbitrary: i d)
  case Nil
  then show ?case by simp
next
  case (Cons c chans)
  obtain ch sensor where c: "c = (ch, sensor)" by (cases c) auto
  from Cons.prems have "COLUMN_OFFSET + i < width b" by simp
  from sensor_data_in_range [OF this] obtain v where v: "sensor_data b i sensor = Inr v"
    by blast
  from Cons.prems have "COLUMN_OFFSET + Suc i + length chans \<le> width b" by simp
  from Cons.IH [OF this] c v show ?case by simp
qed

lemma keys_grow_trans:
  "keys_grow chans d d1 \<Longrightarrow> keys_grow chans d1 d2 \<Longrightarrow> keys_grow chans d d2"
  unfolding keys_grow_def by blast

lemma iteration_keys:
  assumes "iteration p chans rate t0 r d = (x, d', evs)" and "distinct (dict_keys d)"
  shows "keys_grow chans d d'"
proof (cases "fst r")
  case (Read_raises e)
  with assms show ?thesis by (simp add: iteration_def keys_grow_def del: set_map)
next
  case (Batch b)
  obtain e d1 where cs: "convert_store b 0 chans d = (e, d1)"
    by (cases "convert_store b 0 chans d") auto
  from convert_store_keys [OF cs assms(2)] have "keys_grow chans d d1"
    by (simp add: keys_grow_def del: set_map)
  moreover from assms(1) Batch cs have "d' = d1"
    by (auto simp: iteration_def split: option.splits sum.splits if_splits)
  ultimately show ?thesis by simp
qed

lemma iteration_first_batch:
  assumes "iteration p chans rate t0 r d = (x, d', evs)" and "distinct (dict_keys d)"
      and "fst r = Batch b" and "COLUMN_OFFSET + length chans \<le> width b"
  shows "set (map snd chans) \<subseteq> set (dict_keys d')"
proof -
  obtain e d1 where cs: "convert_store b 0 chans d = (e, d1)"
    by (cases "convert_store b 0 chans d") auto
  from convert_store_complete [of 0 chans b d] assms(4) cs have "e = None" by simp
  with convert_store_keys [OF cs assms(2)] have "set (map snd chans) \<subseteq> set (dict_keys d1)"
    by simp
  moreover from assms(1,3) cs have "d' = d1"
    by (auto simp: iteration_def split: option.splits sum.splits if_splits)
  ultimately show ?thesis by simp
qed

lemma poll_keys:
  assumes "poll p chans rate t0 rs d = (x, d', evs)" and "distinct (dict_keys d)"
  shows "keys_grow chans d d'"
  using assms
proof (induction rs arbitrary: d x d' evs)
  case Nil
  then show ?case by (simp add: keys_grow_def del: set_map)
next
  case (Cons r rs)
  obtain y d1 evs1 where it: "iteration p chans rate t0 r d = (y, d1, evs1)"
    by (cases "iteration p chans rate t0 r d") auto
  from iteration_keys [OF it Cons.prems(2)] have g1: "keys_grow chans d d1" .
  show ?case
  proof (cases y)
    case (Some ex)
    with Cons.prems(1) it g1 show ?thesis by simp
  next
    case None
    obtain x2 d2 evs2 where po: "poll p chans rate t0 rs d1 = (x2, d2, evs2)"
      by (cases "poll p chans rate t0 rs d1") auto
    from g1 have "distinct (dict_keys d1)" by (simp add: keys_grow_def)
    from Cons.IH [OF po this] have "keys_grow chans d1 d2" .
    with g1 have "keys_grow chans d d2" by (rule keys_grow_trans)
    with Cons.prems(1) it None po show ?thesis by auto
  qed
qed

lemma poll_first_batch:
  assumes "poll p chans rate t0 ((Batch b, t) # rs) [] = (x, d', evs)"
      and "COLUMN_OFFSET + length chans \<le> width b"
  shows "distinct (dict_keys d') \<and> set (dict_keys d') = set (map snd chans)"
proof -
  obtain y d1 evs1 where it: "iteration p chans rate t0 (Batch b, t) [] = (y, d1, evs1)"
    by (cases "iteration p chans rate t0 (Batch b, t) []") auto
  have g1: "keys_grow chans [] d1"
    by (rule iteration_keys [OF it]) (simp add: dict_keys_Nil)
  have f1: "set (map snd chans) \<subseteq> set (dict_keys d1)"
    by (rule iteration_first_batch [OF it _ _ assms(2)]) (simp_all add: dict_keys_Nil)
  have "keys_grow chans d1 d'"
  proof (cases y)
    case (Some ex)
    with assms(1) it g1 show ?thesis by (simp add: keys_grow_def del: set_map)
  next
    case None
    obtain x2 d2 evs2 where po: "poll p chans rate t0 rs d1 = (x2, d2, evs2)"
      by (cases "poll p chans rate t0 rs d1") auto
    from g1 have "distinct (dict_keys d1)" by (simp add: keys_grow_def)
    from poll_keys [OF po this] assms(1) it None po show ?thesis by auto
  qed
  with g1 f1 show ?thesis unfolding keys_grow_def dict_keys_Nil by (simp del: set_map) blast
qed


lemma length_check_sensor_types: "length (check_sensor_types chans) = length chans"
  by (simp add: check_sensor_types_def)

lemma try_body_first_batch:
  assumes "try_body a p s = (ex, Some (stamp, d), s', evs)"
      and "reads a = (Batch b, t) # rest"
      and "COLUMN_OFFSET + length (channels p) \<le> width b"
  shows "stamp = time_stamp a \<and> distinct (dict_keys d)
       \<and> set (dict_keys d) = set (map snd (check_sensor_types (channels p)))"
proof -
  let ?chans = "check_sensor_types (channels p)"
  from assms(1) have "\<exists>rate x evs1.
      poll p ?chans rate (t_start a) (reads a) [] = (x, d, evs1) \<and> stamp = time_stamp a"
    by (auto simp: try_body_def Let_def split: prod.splits sum.splits option.splits)
  then obtain rate x evs1 where
    po: "poll p ?chans rate (t_start a) (reads a) [] = (x, d, evs1)"
    and st: "stamp = time_stamp a"
    by blast
  from assms(3) have wide: "COLUMN_OFFSET + length ?chans \<le> width b"
    by (simp add: length_check_sensor_types)
  from poll_first_batch [OF po [unfolded assms(2)] wide] st show ?thesis by simp
qed

lemma DataFrame_columns:
  assumes "DataFrame d = Inr df"
  shows "fst df = dict_keys d \<and> list_all (\<lambda>row. length row = length (dict_keys d)) (snd df)"
  using assms
  by (auto simp: DataFrame_def dict_keys_def list_all_iff split: if_splits)

lemma to_csv_no_index:
  "header (to_csv False df) = fst df \<and> body (to_csv False df) = snd df"
  by (simp add: to_csv_def)

lemma disconnect_keeps_rate:
  assumes "disconnect a m = (r, m', evs)"
  shows "sampling_rate (device_state m') = sampling_rate (device_state m)"
  using assms by (auto simp: disconnect_def split: option.splits)

lemma epilogue_saves:
  assumes "epilogue a p bound m = (Returned stamp d, m', evs)" and "save_to_file p"
  shows "bound = Some (stamp, d)
       \<and> (\<exists>df before. DataFrame d = Inr df
            \<and> evs = before @ [Csv_write (file_name_prefix p) (sampling_rate (device_state m))
                                 stamp (to_csv False df)])"
proof -
  obtain r1 evs1 where fs: "force_stop_aquisition a = (r1, evs1)"
    by (cases "force_stop_aquisition a") auto
  obtain r2 m1 evs2 where dc: "disconnect a m = (r2, m1, evs2)"
    by (cases "disconnect a m") auto
  note rate = disconnect_keeps_rate [OF dc]
  show ?thesis
    using assms fs dc rate
    by (auto simp: epilogue_def Let_def
             split: if_splits sum.splits option.splits prod.splits)
qed


lemma try_body_bound_rate:
  assumes "try_body a p s = (ex, Some bound, s', evs)"
  shows "sampling_rate s' = samplingRate p"
proof -
  from assms obtain u s1 where s1: "select_sampling_rate (samplingRate p) s = (Inr u, s1)"
    by (auto simp: try_body_def Let_def split: prod.splits sum.splits option.splits)
  from select_sampling_rate_Inr [OF s1] have r1: "sampling_rate s1 = samplingRate p" by simp
  from assms s1 have "s' = snd (select_channels (map fst (channels p)) s1)"
    by (auto simp: try_body_def Let_def split: prod.splits sum.splits option.splits)
  with select_channels_rate [of "map fst (channels p)" s1] r1 show ?thesis by simp
qed

lemma run_attempt_saves:
  assumes "run_attempt a p m = (Done (Returned stamp d), m', evs)"
      and "save_to_file p"
      and "reads a = (Batch b, t) # rest"
      and "COLUMN_OFFSET + length (channels p) \<le> width b"
  shows "\<exists>before rows.
           evs = before @ [Csv_write (file_name_prefix p) (samplingRate p) stamp
                             \<lparr>header = dict_keys d, body = rows\<rparr>]
         \<and> distinct (dict_keys d)
         \<and> set (dict_keys d) = set (map snd (check_sensor_types (channels p)))
         \<and> list_all (\<lambda>row. length row = length (dict_keys d)) rows"
proof -
  obtain r0 m1 evs0 where co:
    "(if \<not> connected (device_state m) then connect (sdk a) (macAddress p) 5 False m
      else (Inr True, m, [])) = (r0, m1, evs0)"
    by (cases "if \<not> connected (device_state m) then connect (sdk a) (macAddress p) 5 False m
               else (Inr True, m, [])") auto
  obtain ex bound s evs1 where tb: "try_body a p (device_state m1) = (ex, bound, s, evs1)"
    by (cases "try_body a p (device_state m1)") auto
  obtain r2 m3 evs2 where ep:
    "epilogue a p bound (m1\<lparr>device_state := s\<rparr>) = (r2, m3, evs2)"
    by (cases "epilogue a p bound (m1\<lparr>device_state := s\<rparr>)") auto
  obtain r3 evs3 where fs: "force_stop_aquisition a = (r3, evs3)"
    by (cases "force_stop_aquisition a") auto
  from assms(1) co tb ep fs
  have ret: "r2 = Returned stamp d" and evs: "evs = evs0 @ evs1 @ evs2"
    by (auto simp: run_attempt_def Let_def
             split: sum.splits loop_exit.splits if_splits)
  from epilogue_saves [OF ep [unfolded ret] assms(2)] obtain df before where
    bound: "bound = Some (stamp, d)" and df: "DataFrame d = Inr df" and
    evs2: "evs2 = before @ [Csv_write (file_name_prefix p) (sampling_rate s) stamp
                             (to_csv False df)]"
    by auto
  from try_body_bound_rate [OF tb [unfolded bound]] have rate: "sampling_rate s = samplingRate p" .
  from try_body_first_batch [OF tb [unfolded bound] assms(3,4)]
  have keys: "distinct (dict_keys d)"
       "set (dict_keys d) = set (map snd (check_sensor_types (channels p)))"
    by simp_all
  from DataFrame_columns [OF df]
  have cols: "to_csv False df = \<lparr>header = dict_keys d, body = snd df\<rparr>"
    and rows: "list_all (\<lambda>row. length row = length (dict_keys d)) (snd df)"
    by (simp_all add: to_csv_def)
  have "evs = (evs0 @ evs1 @ before) @
          [Csv_write (file_name_prefix p) (samplingRate p) stamp
             \<lparr>header = dict_keys d, body = snd df\<rparr>]"
    using evs evs2 rate cols by simp
  with keys rows show ?thesis by blast
qed

text \<open>
  C4, as amended. When \<open>start_aquisition\<close> is called with \<open>save_to_file=True\<close> and
  returns, without a device-busy restart, after a first batch that has a column for
  every requested channel, the last thing it does is write one CSV file whose column
  labels are the keys of the session: pairwise distinct, and exactly the sensor types of
  the \<open>channels\<close> argument (an unknown type counted as RAW). The file has no index
  column: every row has as many fields as there are column labels.
\<close>

theorem csv_has_one_column_per_sensor_label:
  assumes "start_aquisition [a] p m = (Returned stamp d, m', evs)"
      and "save_to_file p"
      and "reads a = (Batch b, t) # rest"
      and "COLUMN_OFFSET + length (channels p) \<le> width b"
  shows "\<exists>before rows.
           evs = before @ [Csv_write (file_name_prefix p) (samplingRate p) stamp
                             \<lparr>header = dict_keys d, body = rows\<rparr>]
         \<and> distinct (dict_keys d)
         \<and> set (dict_keys d) = set (map snd (check_sensor_types (channels p)))
         \<and> list_all (\<lambda>row. length row = length (dict_keys d)) rows"
proof -
  obtain st m1 evs1 where ra: "run_attempt a p m = (st, m1, evs1)"
    by (cases "run_attempt a p m") auto
  with assms(1) have "st = Done (Returned stamp d)" and "evs1 = evs"
    by (auto split: step.splits)
  with ra have "run_attempt a p m = (Done (Returned stamp d), m1, evs)" by simp
  from run_attempt_saves [OF this assms(2-4)] show ?thesis .
qed

text \<open>
  C4 as stated fails when the session ends before a batch is stored. In the usage
  example, let the first \<open>read\<close> report that the connection is lost: the exception is
  printed, the session is closed and saved, and the file written has no column at all,
  although the sensors EDA and ECG were requested.
\<close>

theorem csv_without_columns:
  "start_aquisition
     [\<lparr>sdk = quiet_sdk, start_raises = None, t_start = 0, time_stamp = ''04-11-2026-080000'',
       reads = [(Read_raises (Exception CONTACTING_DEVICE), 0)],
       plot_running = True, stop_raises = None, close_raises = None\<rparr>]
     usage_example initial_manager
   = (Returned ''04-11-2026-080000'' [],
      \<lparr>device_state = \<lparr>MAC = ''00:21:08:35:14:75'', selected_channels = [0, 1],
                        sampling_rate = 100, connected = False\<rparr>,
       connection_failed_counter = 0,
       collected_data = [(''04-11-2026-080000'', [])]\<rparr>,
      [Dev_open ''00:21:08:35:14:75'' 5, Dev_version, Dev_start 100 [0, 1],
       Plot_spawn 100 [''EDA'', ''ECG''], Dev_read 100, Plot_sigint, Dev_stop, Dev_close,
       Csv_write ''BITALINO'' 100 ''04-11-2026-080000'' \<lparr>header = [], body = []\<rparr>])
   \<and> save_to_file usage_example
   \<and> map snd (channels usage_example) = [''EDA'', ''ECG'']
   \<and> length (header \<lparr>header = [], body = []\<rparr>) \<noteq> length (map snd (channels usage_example))"
  by (simp add: model_defs)

theorem csv_has_one_column_per_sensor_label_witness:
  "start_aquisition
     [\<lparr>sdk = quiet_sdk, start_raises = None, t_start = 0, time_stamp = ''04-11-2026-080000'',
       reads = [(Batch \<lparr>width = 7, samples = [[0, 0, 0, 0, 0, 512, 512],
                                                 [1, 0, 0, 0, 0, 1024, 0]]\<rparr>, 10)],
       plot_running = True, stop_raises = None, close_raises = None\<rparr>]
     usage_example initial_manager
   = (Returned ''04-11-2026-080000'' [(''EDA'', [512, 1024]), (''ECG'', [0, - (6755399441055743 / 4503599627370496)])],
      \<lparr>device_state = \<lparr>MAC = ''00:21:08:35:14:75'', selected_channels = [0, 1],
                        sampling_rate = 100, connected = False\<rparr>,
       connection_failed_counter = 0,
       collected_data = [(''04-11-2026-080000'',
                          [(''EDA'', [512, 1024]), (''ECG'', [0, - (6755399441055743 / 4503599627370496)])])]\<rparr>,
      [Dev_open ''00:21:08:35:14:75'' 5, Dev_version, Dev_start 100 [0, 1],
       Plot_spawn 100 [''EDA'', ''ECG''], Dev_read 100,
       Plot_write [[512, 1024], [0, - (6755399441055743 / 4503599627370496)]], Plot_sigint, Dev_stop, Dev_close,
       Csv_write ''BITALINO'' 100 ''04-11-2026-080000''
         \<lparr>header = [''EDA'', ''ECG''], body = [[512, 0], [1024, - (6755399441055743 / 4503599627370496)]]\<rparr>])
   \<and> save_to_file usage_example
   \<and> COLUMN_OFFSET + length (channels usage_example) \<le> 7
   \<and> dict_keys [(''EDA'', [512, 1024 :: rat]), (''ECG'', [0, - (6755399441055743 / 4503599627370496)])] = [''EDA'', ''ECG'']
   \<and> set [''EDA'', ''ECG''] = set (map snd (check_sensor_types (channels usage_example)))"
proof -
  let ?a = "\<lparr>sdk = quiet_sdk, start_raises = None, t_start = 0,
       time_stamp = ''04-11-2026-080000'',
       reads = [(Batch \<lparr>width = 7, samples = [[0, 0, 0, 0, 0, 512, 512],
                                                 [1, 0, 0, 0, 0, 1024, 0]]\<rparr>, 10 :: rat)],
       plot_running = True, stop_raises = None, close_raises = None\<rparr>"
  have run: "start_aquisition [?a] usage_example initial_manager
   = (Returned ''04-11-2026-080000'' [(''EDA'', [512, 1024]), (''ECG'', [0, - (6755399441055743 / 4503599627370496)])],
      \<lparr>device_state = \<lparr>MAC = ''00:21:08:35:14:75'', selected_channels = [0, 1],
                        sampling_rate = 100, connected = False\<rparr>,
       connection_failed_counter = 0,
       collected_data = [(''04-11-2026-080000'',
                          [(''EDA'', [512, 1024]), (''ECG'', [0, - (6755399441055743 / 4503599627370496)])])]\<rparr>,
      [Dev_open ''00:21:08:35:14:75'' 5, Dev_version, Dev_start 100 [0, 1],
       Plot_spawn 100 [''EDA'', ''ECG''], Dev_read 100,
       Plot_write [[512, 1024], [0, - (6755399441055743 / 4503599627370496)]], Plot_sigint, Dev_stop, Dev_close,
       Csv_write ''BITALINO'' 100 ''04-11-2026-080000''
         \<lparr>header = [''EDA'', ''ECG''], body = [[512, 0], [1024, - (6755399441055743 / 4503599627370496)]]\<rparr>])"
    by (simp add: model_defs)
  have save: "save_to_file usage_example" by (simp add: usage_example_def)
  have rd: "reads ?a = (Batch \<lparr>width = 7, samples = [[0, 0, 0, 0, 0, 512, 512],
                                                 [1, 0, 0, 0, 0, 1024, 0]]\<rparr>, 10) # []"
    by simp
  have wide: "COLUMN_OFFSET + length (channels usage_example)
                \<le> width \<lparr>width = 7, samples = [[0, 0, 0, 0, 0, 512, 512],
                                                 [1, 0, 0, 0, 0, 1024, 0 :: int]]\<rparr>"
    by (simp add: COLUMN_OFFSET_def usage_example_def)
  from csv_has_one_column_per_sensor_label [OF run save rd wide]
  have "set (dict_keys [(''EDA'', [512, 1024 :: rat]), (''ECG'', [0, - (6755399441055743 / 4503599627370496)])])
          = set (map snd (check_sensor_types (channels usage_example)))"
    by blast
  with run save wide show ?thesis by (simp add: dict_keys_def)
qed

section \<open>The most recent minute\<close>

lemma plot_frame_tail:
  assumes "0 < rate" and "plot_frame rate d = Inr tmp"
  shows "tmp = last_minute rate d"
  using assms
  by (auto simp: plot_frame_def np_array_def slice_from_def last_minute_def Let_def
           split: if_splits)

lemma written_part_tail:
  assumes "0 < rate"
      and "(if live then map_sum id (\<lambda>tmp. [Plot_write tmp]) (plot_frame rate d) else Inr []) = Inr w"
  shows "written_frames w = [] \<or> written_frames w = [last_minute rate d]"
proof (cases live)
  case False
  with assms(2) show ?thesis by (simp add: written_frames_def)
next
  case True
  with assms(2) obtain tmp where pf: "plot_frame rate d = Inr tmp" and w: "w = [Plot_write tmp]"
    by (cases "plot_frame rate d") auto
  from plot_frame_tail [OF assms(1) pf] w show ?thesis
    by (simp add: written_frames_def)
qed

lemma iteration_tail:
  assumes "0 < rate" and "iteration p chans rate t0 r d = (x, d1, evs)"
  shows "written_frames evs = [] \<or> written_frames evs = [last_minute rate d1]"
  using assms(2) written_part_tail [OF assms(1), of "show_live_plot p" d1]
  by (auto simp: iteration_def written_frames_Cons written_frames_Nil
           split: read_result.splits prod.splits option.splits sum.splits)

lemma poll_tail:
  assumes "0 < rate" and "poll p chans rate t0 rs d = (x, d', evs)"
  shows "written_frames evs = map (last_minute rate) (poll_plotted p chans rate t0 rs d)"
  using assms(2)
proof (induction rs arbitrary: d x d' evs)
  case Nil
  then show ?case by (simp add: written_frames_Nil)
next
  case (Cons r rs)
  obtain y d1 evs1 where it: "iteration p chans rate t0 r d = (y, d1, evs1)"
    by (cases "iteration p chans rate t0 r d") auto
  from iteration_tail [OF assms(1) it]
  have f1: "written_frames evs1 =
              map (last_minute rate) (if written_frames evs1 = [] then [] else [d1])"
    by auto
  show ?case
  proof (cases y)
    case (Some ex)
    with Cons.prems it f1 show ?thesis by auto
  next
    case None
    obtain x2 d2 evs2 where po: "poll p chans rate t0 rs d1 = (x2, d2, evs2)"
      by (cases "poll p chans rate t0 rs d1") auto
    from Cons.IH [OF po]
    have "written_frames evs2 = map (last_minute rate) (poll_plotted p chans rate t0 rs d1)" .
    with Cons.prems it None po f1 show ?thesis
      by (auto simp: written_frames_append)
  qed
qed

lemma try_body_tail:
  assumes "try_body a p s = (ex, bound, s', evs)"
  shows "written_frames evs =
           (if bound = None then []
            else map (last_minute (samplingRate p))
                   (poll_plotted p (check_sensor_types (channels p)) (samplingRate p)
                      (t_start a) (reads a) []))"
proof (cases bound)
  case None
  with assms show ?thesis
    by (auto simp: try_body_def Let_def written_frames_def
             split: prod.splits sum.splits option.splits)
next
  case (Some b)
  from try_body_bound_rate [OF assms [unfolded Some]] have rate: "sampling_rate s' = samplingRate p" .
  from assms Some obtain u s1 where s1: "select_sampling_rate (samplingRate p) s = (Inr u, s1)"
    by (auto simp: try_body_def Let_def split: prod.splits sum.splits option.splits)
  from select_sampling_rate_Inr [OF s1] have pos: "0 < samplingRate p" by auto
  let ?chans = "check_sensor_types (channels p)"
  obtain x d evs1 where po:
    "poll p ?chans (samplingRate p) (t_start a) (reads a) [] = (x, d, evs1)"
    by (cases "poll p ?chans (samplingRate p) (t_start a) (reads a) []") auto
  from assms Some rate po have "written_frames evs = written_frames evs1"
    by (auto simp: try_body_def Let_def written_frames_append written_frames_Cons
                   written_frames_Nil
             split: prod.splits sum.splits option.splits)
  with poll_tail [OF pos po] Some show ?thesis by simp
qed


lemma run_attempt_tail:
  assumes "run_attempt a p m = (st, m', evs)"
  shows "written_frames evs = map (last_minute (samplingRate p)) (attempt_plotted a p m)"
proof -
  obtain r0 m1 evs0 where co:
    "(if \<not> connected (device_state m) then connect (sdk a) (macAddress p) 5 False m
      else (Inr True, m, [])) = (r0, m1, evs0)"
    by (cases "if \<not> connected (device_state m) then connect (sdk a) (macAddress p) 5 False m
               else (Inr True, m, [])") auto
  have c0: "written_frames evs0 = []"
    using co connect_rate [of "sdk a" "macAddress p" 5 False m r0 m1 evs0]
    by (auto simp: written_frames_Nil split: if_splits)
  show ?thesis
  proof (cases r0)
    case (Inl e)
    with co assms c0 show ?thesis
      by (auto simp: run_attempt_def attempt_plotted_def loop_reached_def)
  next
    case (Inr c)
    obtain ex bound s evs1 where tb: "try_body a p (device_state m1) = (ex, bound, s, evs1)"
      by (cases "try_body a p (device_state m1)") auto
    have reached: "loop_reached a p m \<longleftrightarrow> bound \<noteq> None"
      using co Inr tb by (simp add: loop_reached_def)
    from try_body_tail [OF tb] reached
    have k1: "written_frames evs1 = map (last_minute (samplingRate p)) (attempt_plotted a p m)"
      by (simp add: attempt_plotted_def)
    obtain r2 m3 evs2 where ep:
      "epilogue a p bound (m1\<lparr>device_state := s\<rparr>) = (r2, m3, evs2)"
      by (cases "epilogue a p bound (m1\<lparr>device_state := s\<rparr>)") auto
    from epilogue_rate [OF ep] have k2: "written_frames evs2 = []" by simp
    obtain r3 evs3 where fs: "force_stop_aquisition a = (r3, evs3)"
      by (cases "force_stop_aquisition a") auto
    from force_stop_frames [OF fs] have k3: "written_frames evs3 = []" .
    have "evs = evs0 @ evs1 \<or> evs = evs0 @ evs1 @ evs2 \<or> evs = evs0 @ evs1 @ evs3"
      using assms co Inr tb ep fs
      by (auto simp: run_attempt_def Let_def split: loop_exit.splits if_splits sum.splits)
    with c0 k1 k2 k3 show ?thesis
      by (auto simp: written_frames_append)
  qed
qed

lemma start_aquisition_tail:
  assumes "start_aquisition scripts p m = (r, m', evs)"
  shows "written_frames evs = map (last_minute (samplingRate p)) (run_plotted scripts p m)"
  using assms
proof (induction scripts arbitrary: p m r m' evs)
  case Nil
  then show ?case by (simp add: written_frames_Nil)
next
  case (Cons a later)
  obtain st m1 evs1 where ra: "run_attempt a p m = (st, m1, evs1)"
    by (cases "run_attempt a p m") auto
  note k1 = run_attempt_tail [OF ra]
  show ?case
  proof (cases st)
    case (Done res)
    with Cons.prems ra k1 show ?thesis by auto
  next
    case Retry
    obtain r2 m2 evs2 where sa: "start_aquisition later (retry_params p) m1 = (r2, m2, evs2)"
      by (cases "start_aquisition later (retry_params p) m1") auto
    note k2 = Cons.IH [OF sa]
    from Cons.prems ra Retry sa have "evs = evs1 @ evs2" by auto
    with k1 k2 ra Retry show ?thesis
      by (simp add: written_frames_append samplingRate_retry)
  qed
qed

text \<open>
  C10. Every frame written to the plotting process is the most recent minute of the
  session at the moment of writing: for every sensor, the last \<open>60 * sampling_rate\<close>
  entries of its array as it stands at the end of that polling iteration, so at most
  \<open>60 * sampling_rate\<close> samples per sensor, where \<open>sampling_rate\<close> is the rate of
  the device state (the \<open>samplingRate\<close> of the call), however many scripts the
  acquisition runs through and however long it polls.
\<close>

theorem plot_frames_hold_at_most_a_minute:
  assumes "start_aquisition scripts p m = (r, m', evs)"
  shows "written_frames evs = map (last_minute (samplingRate p)) (run_plotted scripts p m)
       \<and> (\<forall>tmp \<in> set (written_frames evs).
             sampling_rate (device_state m') = samplingRate p
           \<and> (\<forall>row \<in> set tmp. int (length row) \<le> 60 * sampling_rate (device_state m')))"
  using start_aquisition_rate [OF assms] start_aquisition_tail [OF assms]
  by (auto simp: rate_kept_def frames_within_def list_all_iff)

lemmas plotted_defs =
  attempt_plotted_def loop_reached_def last_minute_def written_frames_def

theorem plot_frames_hold_at_most_a_minute_witness:
  "start_aquisition
     [\<lparr>sdk = quiet_sdk, start_raises = None, t_start = 0, time_stamp = ''04-11-2026-080000'',
       reads = [(Batch \<lparr>width = 6, samples = replicate 60 [0, 0, 0, 0, 0, 7]\<rparr>, 5),
                (Batch \<lparr>width = 6, samples = [[1, 0, 0, 0, 0, 9]]\<rparr>, 10)],
       plot_running = True, stop_raises = None, close_raises = None\<rparr>]
     (usage_example\<lparr>channels := [(''A1'', ''RAW'')], samplingRate := 1, save_to_file := False\<rparr>)
     initial_manager
   = (Returned ''04-11-2026-080000'' [(''RAW'', replicate 60 7 @ [9])],
      \<lparr>device_state = \<lparr>MAC = ''00:21:08:35:14:75'', selected_channels = [0],
                        sampling_rate = 1, connected = False\<rparr>,
       connection_failed_counter = 0,
       collected_data = [(''04-11-2026-080000'', [(''RAW'', replicate 60 7 @ [9])])]\<rparr>,
      [Dev_open ''00:21:08:35:14:75'' 5, Dev_version, Dev_start 1 [0],
       Plot_spawn 1 [''RAW''], Dev_read 100, Plot_write [replicate 60 7],
       Dev_read 100, Plot_write [replicate 59 7 @ [9]],
       Plot_sigint, Dev_stop, Dev_close])
   \<and> run_plotted
     [\<lparr>sdk = quiet_sdk, start_raises = None, t_start = 0, time_stamp = ''04-11-2026-080000'',
       reads = [(Batch \<lparr>width = 6, samples = replicate 60 [0, 0, 0, 0, 0, 7]\<rparr>, 5),
                (Batch \<lparr>width = 6, samples = [[1, 0, 0, 0, 0, 9]]\<rparr>, 10)],
       plot_running = True, stop_raises = None, close_raises = None\<rparr>]
     (usage_example\<lparr>channels := [(''A1'', ''RAW'')], samplingRate := 1, save_to_file := False\<rparr>)
     initial_manager
   = [[(''RAW'', replicate 60 7)], [(''RAW'', replicate 60 7 @ [9])]]
   \<and> written_frames [Dev_open ''00:21:08:35:14:75'' 5, Dev_version, Dev_start 1 [0],
       Plot_spawn 1 [''RAW''], Dev_read 100, Plot_write [replicate 60 (7 :: rat)],
       Dev_read 100, Plot_write [replicate 59 7 @ [9]],
       Plot_sigint, Dev_stop, Dev_close]
     = [[replicate 60 7], [replicate 59 7 @ [9]]]
   \<and> map (last_minute 1) [[(''RAW'', replicate 60 7)], [(''RAW'', replicate 60 7 @ [9])]]
     = [[replicate 60 7], [replicate 59 7 @ [9]]]
   \<and> int (length (replicate 59 (7 :: rat) @ [9])) \<le> 60 * 1"
proof -
  let ?a = "\<lparr>sdk = quiet_sdk, start_raises = None, t_start = 0,
       time_stamp = ''04-11-2026-080000'',
       reads = [(Batch \<lparr>width = 6, samples = replicate 60 [0, 0, 0, 0, 0, 7]\<rparr>, 5 :: rat),
                (Batch \<lparr>width = 6, samples = [[1, 0, 0, 0, 0, 9]]\<rparr>, 10)],
       plot_running = True, stop_raises = None, close_raises = None\<rparr>"
  let ?p = "usage_example\<lparr>channels := [(''A1'', ''RAW'')], samplingRate := 1,
              save_to_file := False\<rparr>"
  have run: "start_aquisition [?a] ?p initial_manager
   = (Returned ''04-11-2026-080000'' [(''RAW'', replicate 60 7 @ [9])],
      \<lparr>device_state = \<lparr>MAC = ''00:21:08:35:14:75'', selected_channels = [0],
                        sampling_rate = 1, connected = False\<rparr>,
       connection_failed_counter = 0,
       collected_data = [(''04-11-2026-080000'', [(''RAW'', replicate 60 7 @ [9])])]\<rparr>,
      [Dev_open ''00:21:08:35:14:75'' 5, Dev_version, Dev_start 1 [0],
       Plot_spawn 1 [''RAW''], Dev_read 100, Plot_write [replicate 60 7],
       Dev_read 100, Plot_write [replicate 59 7 @ [9]],
       Plot_sigint, Dev_stop, Dev_close])"
    by (simp add: model_defs)
  have plotted: "run_plotted [?a] ?p initial_manager
   = [[(''RAW'', replicate 60 7)], [(''RAW'', replicate 60 7 @ [9])]]"
    by (simp add: model_defs plotted_defs)
  from plot_frames_hold_at_most_a_minute [OF run] show ?thesis
    using run plotted by (simp add: written_frames_def last_minute_def)
qed

section \<open>Sessions whose sensor types are pairwise distinct\<close>

text \<open>
  When no two requested channels share a sensor type, a polling iteration that runs to
  its end adds the samples of the batch to every array: the arrays of the session have
  one length after it.
\<close>

lemma map_of_dict_set: "map_of (dict_set d k v) = (map_of d)(k \<mapsto> v)"
  by (induction d) auto

lemma dict_get_store:
  "length (dict_get (store d k v) k' []) =
     (if k' = k then length (dict_get d k []) + length v else length (dict_get d k' []))"
  by (simp add: store_def dict_get_def map_of_dict_set)

lemma length_column:
  assumes "column b j = Inr c"
  shows "length c = length (samples b)"
  using assms by (auto simp: column_def split: if_splits)

lemma length_sensor_data:
  assumes "sensor_data b i sensor = Inr v"
  shows "length v = length (samples b)"
proof (cases "column b (COLUMN_OFFSET + i)")
  case (Inl e)
  with assms show ?thesis by (simp add: sensor_data_def split: if_splits)
next
  case (Inr c)
  with assms length_column [OF Inr] show ?thesis
    by (auto simp: sensor_data_def raw_to_eda_uS_def raw_to_ecg_mv_def Let_def split: if_splits)
qed

lemma convert_store_lengths:
  assumes "convert_store b i chans d = (None, d')" and "distinct (map snd chans)"
  shows "length (dict_get d' k []) =
           length (dict_get d k []) + (if k \<in> set (map snd chans) then length (samples b) else 0)"
  using assms
proof (induction chans arbitrary: i d)
  case Nil
  then show ?case by simp
next
  case (Cons c chans)
  obtain ch sensor where c: "c = (ch, sensor)" by (cases c) auto
  show ?case
  proof (cases "sensor_data b i sensor")
    case (Inl e)
    with Cons.prems c show ?thesis by simp
  next
    case (Inr v)
    with Cons.prems c have rec: "convert_store b (Suc i) chans (store d sensor v) = (None, d')"
      by simp
    from Cons.prems c have dist: "distinct (map snd chans)" and fresh: "sensor \<notin> set (map snd chans)"
      by simp_all
    from Cons.IH [OF rec dist] length_sensor_data [OF Inr] c fresh
    show ?thesis by (auto simp: dict_get_store simp del: set_map)
  qed
qed

lemma dict_get_entry:
  assumes "distinct (dict_keys d)" and "(k, v) \<in> set d"
  shows "dict_get d k dflt = v"
  using assms by (simp add: dict_get_def dict_keys_def)

lemma uniform_aligned:
  assumes "uniform chans n d"
  shows "aligned (map snd d) \<and> list_all (\<lambda>a. length a = n) (map snd d)"
proof -
  have len: "length v = n" if "(k, v) \<in> set d" for k v
  proof -
    from assms have dist: "distinct (dict_keys d)" by (simp add: uniform_def)
    from that have "k \<in> set (dict_keys d)" by (force simp: dict_keys_def)
    with assms have "k \<in> set (map snd chans)" by (auto simp: uniform_def simp del: set_map)
    with assms have "length (dict_get d k []) = n" by (simp add: uniform_def list_all_iff del: set_map)
    with dict_get_entry [OF dist that] show ?thesis by simp
  qed
  then have all: "list_all (\<lambda>a. length a = n) (map snd d)"
    by (auto simp: list_all_iff)
  then have "aligned (map snd d)"
    by (cases d) (auto simp: list_all_iff)
  with all show ?thesis by simp
qed

lemma iteration_keeps_sessions_aligned:
  assumes "iteration p chans rate t0 r d = (x, d', evs)"
      and "fst r = Batch b"
      and "x = None \<or> x = Some Timed_out"
      and "distinct (map snd chans)"
      and "uniform chans n d"
  shows "uniform chans (n + length (samples b)) d'
       \<and> aligned (map snd d')"
proof -
  obtain e d1 where cs: "convert_store b 0 chans d = (e, d1)"
    by (cases "convert_store b 0 chans d") auto
  from assms(1-3) cs have e: "e = None" and d1: "d' = d1"
    by (auto simp: iteration_def split: option.splits sum.splits if_splits)
  from assms(5) have dist: "distinct (dict_keys d)" by (simp add: uniform_def)
  from convert_store_keys [OF cs dist] assms(5)
  have keys: "distinct (dict_keys d1)" "set (dict_keys d1) \<subseteq> set (map snd chans)"
    by (auto simp: uniform_def simp del: set_map)
  have "list_all (\<lambda>k. length (dict_get d1 k []) = n + length (samples b)) (map snd chans)"
    using convert_store_lengths [OF cs [unfolded e] assms(4)] assms(5)
    by (simp add: uniform_def list_all_iff del: set_map)
  with keys have "uniform chans (n + length (samples b)) d1" by (simp add: uniform_def)
  with uniform_aligned [of chans "n + length (samples b)" d1] d1 show ?thesis by simp
qed

lemma uniform_empty: "uniform chans 0 []"
  by (simp add: uniform_def dict_keys_def dict_get_def list_all_iff)

section \<open>Lines of the live plot\<close>

text \<open>
  The framing of the pipe, for any codec that meets \<open>json_array_codec\<close> on the
  frames sent: \<open>readline\<close> returns one frame's line, \<open>strip\<close> takes the newline
  off, and the receiver decodes the frames in the order in which they were written.
\<close>

lemma readline_line:
  assumes "CHR 0x0A \<notin> set line"
  shows "readline (line @ CHR 0x0A # rest) = (line @ [CHR 0x0A], rest)"
proof -
  from assms have "\<forall>c \<in> set line. c \<noteq> CHR 0x0A" by auto
  then have "dropWhile (\<lambda>c. c \<noteq> CHR 0x0A) (line @ CHR 0x0A # rest) = CHR 0x0A # rest"
    and "takeWhile (\<lambda>c. c \<noteq> CHR 0x0A) (line @ CHR 0x0A # rest) = line"
    by (simp_all add: dropWhile_append3 takeWhile_append2 takeWhile_tail)
  then show ?thesis by (simp add: readline_def)
qed

lemma strip_line:
  assumes "line \<noteq> []" and "\<not> is_space (hd line)" and "\<not> is_space (last line)"
  shows "strip (line @ [CHR 0x0A]) = line"
proof -
  from assms(1,2) have front: "dropWhile is_space (line @ [CHR 0x0A]) = line @ [CHR 0x0A]"
    by (cases line) simp_all
  have nl: "is_space (CHR 0x0A)" by (simp add: is_space_def)
  from assms(1,3) have rear: "dropWhile is_space (rev line) = rev line"
    by (cases "rev line") (simp_all add: last_rev [symmetric] del: last_rev)
  show ?thesis
    by (simp add: strip_def front nl rear)
qed

lemma bracket_not_space: "\<not> is_space (CHR ''['')" "\<not> is_space (CHR '']'')"
  by (simp_all add: is_space_def)

lemma receive_frame:
  assumes "json_array_codec dumps loads tmp"
  shows "receive loads (frame_line dumps tmp @ rest) = tmp # receive loads rest"
proof -
  let ?line = "dumps tmp"
  from assms have ne: "?line \<noteq> []" and h: "hd ?line = CHR ''[''" and l: "last ?line = CHR '']''"
    and nl: "CHR 0x0A \<notin> set ?line" and rt: "loads ?line = Some tmp"
    by (simp_all add: json_array_codec_def)
  have rl: "readline (frame_line dumps tmp @ rest) = (?line @ [CHR 0x0A], rest)"
    using readline_line [OF nl, of rest] by (simp add: frame_line_def)
  have st: "strip (?line @ [CHR 0x0A]) = ?line"
    by (rule strip_line [OF ne]) (simp_all add: h l bracket_not_space)
  have "frame_line dumps tmp @ rest \<noteq> []" by (simp add: frame_line_def)
  then show ?thesis
    by (subst receive.simps) (simp add: rl st rt)
qed

lemma receive_frames:
  assumes "list_all (json_array_codec dumps loads) frames"
  shows "receive loads (concat (map (frame_line dumps) frames)) = frames"
  using assms
proof (induction frames)
  case Nil
  show ?case by (subst receive.simps) simp
next
  case (Cons tmp frames)
  then show ?case by (simp add: receive_frame)
qed

end
